theory Spec2Isabelle
  imports Main
begin

section \<open>The syntax tree\<close>

text \<open>
  The converter of \<^verbatim>\<open>src/module.js\<close> works on an ESTree program. A node is a tagged
  object; the model has one constructor for each node type the converter reads or
  builds, and \<open>Other\<close> for every other node type (its children in traversal order).
  \<open>Null\<close> stands for an absent child (\<^verbatim>\<open>null\<close> or \<^verbatim>\<open>undefined\<close> in a child slot).
  Attributes the converter never reads (\<^verbatim>\<open>computed\<close>, \<^verbatim>\<open>async\<close>, the \<^verbatim>\<open>kind\<close> of a
  property, source positions) are left out.

  The \<^verbatim>\<open>source\<close> of an import declaration is, in ESTree, always a string literal, and
  the names of an import specifier are always identifiers: the model stores the
  strings. So \<^verbatim>\<open>node.source && node.source.type === 'Literal'\<close> holds by type.
\<close>

datatype literal = StrLit string | NumLit int | BoolLit bool | NullLit

datatype import_specifier =
    ImportDefaultSpecifier string
  | ImportNamespaceSpecifier string
  | ImportSpecifier string string

datatype node =
    Null
  | Identifier string
  | Literal literal
  | ImportDeclaration "import_specifier list" string
  | ExportSpecifier node node
  | ExportDefaultDeclaration node
  | ExportNamedDeclaration node "node list" "string option"
  | VariableDeclarator node node
  | VariableDeclaration string "node list"
  | FunctionDeclaration node "node list" node
  | ClassDeclaration node node node
  | FunctionExpression "node list" node
  | BlockStatement "node list"
  | ExpressionStatement node
  | ReturnStatement node
  | MemberExpression node node
  | CallExpression node "node list"
  | ArrayExpression "node list"
  | ObjectExpression "node list"
  | Property node node "bool option"
  | Other string "node list"

text \<open>
  Field order of the constructors:
  \<open>ImportSpecifier imported local\<close>, \<open>ImportDeclaration specifiers source\<close>,
  \<open>ExportSpecifier local exported\<close>,
  \<open>ExportNamedDeclaration declaration specifiers source\<close>,
  \<open>VariableDeclarator id init\<close>, \<open>VariableDeclaration kind declarations\<close>,
  \<open>FunctionDeclaration id params body\<close>, \<open>ClassDeclaration id superClass body\<close>,
  \<open>FunctionExpression params body\<close>, \<open>MemberExpression object property\<close>,
  \<open>CallExpression callee arguments\<close>, \<open>Property key value shorthand\<close>
  (\<open>shorthand = None\<close> is a property built without the field).

  The tree the converter owns is the program; every operation of the converter acts
  on its top-level statement sequence, so the model's tree is that sequence.
\<close>

type_synonym tree = "node list"

subsection \<open>Children of a node\<close>

text \<open>The child nodes of a node, in the order a traversal visits them.\<close>

fun children :: "node \<Rightarrow> node list" where
  "children Null = []"
| "children (Identifier x) = []"
| "children (Literal v) = []"
| "children (ImportDeclaration specs src) = []"
| "children (ExportSpecifier l e) = [e, l]"
| "children (ExportDefaultDeclaration d) = [d]"
| "children (ExportNamedDeclaration d specs src) = d # specs"
| "children (VariableDeclarator i e) = [i, e]"
| "children (VariableDeclaration k ds) = ds"
| "children (FunctionDeclaration i ps b) = i # ps @ [b]"
| "children (ClassDeclaration i s b) = [i, s, b]"
| "children (FunctionExpression ps b) = ps @ [b]"
| "children (BlockStatement ss) = ss"
| "children (ExpressionStatement e) = [e]"
| "children (ReturnStatement e) = [e]"
| "children (MemberExpression ob p) = [ob, p]"
| "children (CallExpression c as) = c # as"
| "children (ArrayExpression es) = es"
| "children (ObjectExpression ps) = ps"
| "children (Property k v sh) = [k, v]"
| "children (Other ty ns) = ns"

text \<open>
  \<open>map_slots g h n\<close> rebuilds \<open>n\<close> with \<open>g\<close> applied to every slot that holds one
  child and \<open>h\<close> to every slot that holds an array of children.
\<close>

fun map_slots :: "(node \<Rightarrow> node) \<Rightarrow> (node list \<Rightarrow> node list) \<Rightarrow> node \<Rightarrow> node" where
  "map_slots g h Null = Null"
| "map_slots g h (Identifier x) = Identifier x"
| "map_slots g h (Literal v) = Literal v"
| "map_slots g h (ImportDeclaration specs src) = ImportDeclaration specs src"
| "map_slots g h (ExportSpecifier l e) = ExportSpecifier (g l) (g e)"
| "map_slots g h (ExportDefaultDeclaration d) = ExportDefaultDeclaration (g d)"
| "map_slots g h (ExportNamedDeclaration d specs src) = ExportNamedDeclaration (g d) (h specs) src"
| "map_slots g h (VariableDeclarator i e) = VariableDeclarator (g i) (g e)"
| "map_slots g h (VariableDeclaration k ds) = VariableDeclaration k (h ds)"
| "map_slots g h (FunctionDeclaration i ps b) = FunctionDeclaration (g i) (h ps) (g b)"
| "map_slots g h (ClassDeclaration i s b) = ClassDeclaration (g i) (g s) (g b)"
| "map_slots g h (FunctionExpression ps b) = FunctionExpression (h ps) (g b)"
| "map_slots g h (BlockStatement ss) = BlockStatement (h ss)"
| "map_slots g h (ExpressionStatement e) = ExpressionStatement (g e)"
| "map_slots g h (ReturnStatement e) = ReturnStatement (g e)"
| "map_slots g h (MemberExpression ob p) = MemberExpression (g ob) (g p)"
| "map_slots g h (CallExpression c as) = CallExpression (g c) (h as)"
| "map_slots g h (ArrayExpression es) = ArrayExpression (h es)"
| "map_slots g h (ObjectExpression ps) = ObjectExpression (h ps)"
| "map_slots g h (Property k v sh) = Property (g k) (g v) sh"
| "map_slots g h (Other ty ns) = Other ty (h ns)"

definition map_children :: "(node \<Rightarrow> node) \<Rightarrow> node \<Rightarrow> node" where
  "map_children f n = map_slots f (map f) n"

lemma size_member: "c \<in> set cs \<Longrightarrow> size c \<le> size_list size cs"
  by (simp add: size_list_estimation')

lemma children_size: "c \<in> set (children n) \<Longrightarrow> size c < size n"
  by (cases n) (auto simp: less_Suc_eq_le dest: size_member)

lemma map_slots_cong [fundef_cong]:
  assumes "n = m"
    and "\<And>c. c \<in> set (children m) \<Longrightarrow> g c = g' c"
    and "\<And>cs. set cs \<subseteq> set (children m) \<Longrightarrow> h cs = h' cs"
  shows "map_slots g h n = map_slots g' h' m"
  using assms by (cases m) auto

lemma map_children_cong [fundef_cong]:
  assumes "n = m" and "\<And>c. c \<in> set (children m) \<Longrightarrow> f c = f' c"
  shows "map_children f n = map_children f' m"
  unfolding map_children_def using assms
  by (intro map_slots_cong) (auto intro!: map_cong)


section \<open>The tree library\<close>

text \<open>
  Modelled from the spec: the query and mutation primitives \<^verbatim>\<open>has\<close>, \<^verbatim>\<open>find\<close>,
  \<^verbatim>\<open>remove\<close>, \<^verbatim>\<open>replace\<close>, \<^verbatim>\<open>prepend\<close>, \<^verbatim>\<open>append\<close> and \<^verbatim>\<open>wrap\<close> belong to the
  tree library the class extends, which is not part of \<^verbatim>\<open>src/\<close>. They follow the
  interface contract of the specification: \<^verbatim>\<open>has(kind)\<close> holds when any node of the kind
  exists, \<^verbatim>\<open>find(kind)\<close> lists the matching nodes in document order, \<^verbatim>\<open>remove\<close>
  deletes all matching nodes, \<^verbatim>\<open>replace\<close> with \<^verbatim>\<open>leave\<close> is a post-order and with
  \<^verbatim>\<open>enter\<close> a pre-order traversal, \<^verbatim>\<open>prepend\<close> and \<^verbatim>\<open>append\<close> insert at the start and
  the end of the top-level body, and \<^verbatim>\<open>wrap(fn)\<close> replaces the body by what \<^verbatim>\<open>fn\<close>
  returns for it. A kind is given by its recogniser.
\<close>

fun isImportDeclaration :: "node \<Rightarrow> bool" where
  "isImportDeclaration (ImportDeclaration specs src) = True"
| "isImportDeclaration _ = False"

fun isExportDefaultDeclaration :: "node \<Rightarrow> bool" where
  "isExportDefaultDeclaration (ExportDefaultDeclaration d) = True"
| "isExportDefaultDeclaration _ = False"

fun isExportNamedDeclaration :: "node \<Rightarrow> bool" where
  "isExportNamedDeclaration (ExportNamedDeclaration d specs src) = True"
| "isExportNamedDeclaration _ = False"

text \<open>All nodes of a subtree in document order (a node before its children).\<close>

function nodes_of :: "node \<Rightarrow> node list" where
  "nodes_of n = n # concat (map nodes_of (children n))"
  by pat_completeness auto
termination
  by (relation "measure size") (auto simp: children_size)

definition tree_nodes :: "tree \<Rightarrow> node list" where
  "tree_nodes t = concat (map nodes_of t)"

definition has :: "(node \<Rightarrow> bool) \<Rightarrow> tree \<Rightarrow> bool" where
  "has P t = list_ex P (tree_nodes t)"

definition find_nodes :: "(node \<Rightarrow> bool) \<Rightarrow> tree \<Rightarrow> node list" where
  "find_nodes P t = filter P (tree_nodes t)"

text \<open>
  Removal: a matching node is dropped from the array that holds it; in a slot that
  holds one child it leaves an absent child. The children of a removed node are not
  visited.
\<close>

function remove_node :: "(node \<Rightarrow> bool) \<Rightarrow> node \<Rightarrow> node" where
  "remove_node P n =
     map_slots (\<lambda>c. if P c then Null else remove_node P c)
       (\<lambda>cs. map (remove_node P) (filter (\<lambda>c. \<not> P c) cs)) n"
  by pat_completeness auto
termination
  by (relation "measure (\<lambda>(P, n). size n)") (auto simp: children_size subset_iff)

definition remove_nodes :: "(node \<Rightarrow> bool) \<Rightarrow> tree \<Rightarrow> tree" where
  "remove_nodes P t = map (remove_node P) (filter (\<lambda>c. \<not> P c) t)"

text \<open>
  \<^verbatim>\<open>replace({leave})\<close>: the children are traversed first, then the visitor sees the
  node and its result takes the node's place; the result is not traversed.
\<close>

function replace_leave :: "(node \<Rightarrow> node) \<Rightarrow> node \<Rightarrow> node" where
  "replace_leave v n = v (map_children (replace_leave v) n)"
  by pat_completeness auto
termination
  by (relation "measure (\<lambda>(v, n). size n)") (auto simp: children_size)

definition prepend :: "node \<Rightarrow> tree \<Rightarrow> tree" where
  "prepend n t = n # t"

definition append_node :: "node \<Rightarrow> tree \<Rightarrow> tree" where
  "append_node n t = t @ [n]"

definition wrap :: "(node list \<Rightarrow> node list) \<Rightarrow> tree \<Rightarrow> tree" where
  "wrap f t = f t"

section \<open>The utility functions\<close>

text \<open>
  Modelled from the spec: \<^verbatim>\<open>unique\<close> (underscore) and \<^verbatim>\<open>flatten\<close> (pure-utilities) are
  library functions outside \<^verbatim>\<open>src/\<close>. \<^verbatim>\<open>unique(list, key)\<close> keeps, in order, the first
  element of every key (the specification's first-occurrence order);
  \<^verbatim>\<open>unique(list)\<close> compares the elements themselves. \<^verbatim>\<open>flatten\<close> splices the arrays of
  a list into the list and keeps the other elements (the specification's flat ordered
  list): an element is one value or an array of values.
\<close>

fun unique_loop :: "('a \<Rightarrow> 'k) \<Rightarrow> 'k list \<Rightarrow> 'a list \<Rightarrow> 'a list" where
  "unique_loop f seen [] = []"
| "unique_loop f seen (x # xs) =
     (if f x \<in> set seen then unique_loop f seen xs
      else x # unique_loop f (seen @ [f x]) xs)"

definition unique_by :: "('a \<Rightarrow> 'k) \<Rightarrow> 'a list \<Rightarrow> 'a list" where
  "unique_by f xs = unique_loop f [] xs"

definition unique :: "'a list \<Rightarrow> 'a list" where
  "unique xs = unique_by (\<lambda>x. x) xs"

datatype 'a one_or_many = One 'a | Many "'a list"

fun flatten :: "'a one_or_many list \<Rightarrow> 'a list" where
  "flatten [] = []"
| "flatten (One x # rest) = x # flatten rest"
| "flatten (Many xs # rest) = xs @ flatten rest"

section \<open>The converter\<close>

subsection \<open>Dependency pairs\<close>

text \<open>
  The three shapes of pair objects the resolver builds: \<^verbatim>\<open>{element}\<close> for a side-effect
  import, \<^verbatim>\<open>{element, param}\<close> from \<^verbatim>\<open>getLocalSpecifier\<close>, and
  \<^verbatim>\<open>{param, element, name}\<close> for an unrenamed named import.
\<close>

datatype pair =
    SideEffect string
  | Bound string string
  | Grouped string string string

fun pair_element :: "pair \<Rightarrow> string" where
  "pair_element (SideEffect e) = e"
| "pair_element (Bound e p) = e"
| "pair_element (Grouped e p n) = e"

fun pair_param :: "pair \<Rightarrow> string option" where
  "pair_param (SideEffect e) = None"
| "pair_param (Bound e p) = Some p"
| "pair_param (Grouped e p n) = Some p"

fun pair_name :: "pair \<Rightarrow> string option" where
  "pair_name (SideEffect e) = None"
| "pair_name (Bound e p) = None"
| "pair_name (Grouped e p n) = Some n"

text \<open>JavaScript truthiness of a field that is a string or absent.\<close>

fun truthy :: "string option \<Rightarrow> bool" where
  "truthy None = False"
| "truthy (Some s) = (s \<noteq> [])"

text \<open>
  \<^verbatim>\<open>dependencyToIdentifierMap\<close>: a plain object used as a dictionary from module
  specifier to parameter name. The model keeps its own properties in insertion order,
  which is the order of \<^verbatim>\<open>Object.values\<close> for keys that are not array indices. A plain
  object is not a finite map on all strings, and the model follows the object:
  \<^item> the assignment \<^verbatim>\<open>dependencyToIdentifierMap[value] = param\<close> (line 70) under the key
    \<^verbatim>\<open>__proto__\<close> goes to the setter the object inherits, which ignores a string: no
    own property is stored. Under every other key the assignment stores an own
    property (line 70 is only reached for a key that is not an own property);
  \<^item> the call \<^verbatim>\<open>dependencyToIdentifierMap.hasOwnProperty(value)\<close> (line 65) looks
    \<^verbatim>\<open>hasOwnProperty\<close> up on the object first: once a parameter is stored under the key
    \<^verbatim>\<open>hasOwnProperty\<close>, the call is the call of a string and raises a TypeError.
    Otherwise it is the inherited method and tells whether the key is an own property.
\<close>

type_synonym memo = "(string \<times> string) list"

datatype error = TypeError

definition object_values :: "memo \<Rightarrow> string list" where
  "object_values m = map snd m"

definition hasOwnProperty :: "memo \<Rightarrow> string \<Rightarrow> error + bool" where
  "hasOwnProperty m v =
     (if map_of m ''hasOwnProperty'' \<noteq> None then Inl TypeError
      else Inr (map_of m v \<noteq> None))"

definition setProperty :: "memo \<Rightarrow> string \<Rightarrow> string \<Rightarrow> memo" where
  "setProperty m v param = (if v = ''__proto__'' then m else m @ [(v, param)])"

text \<open>
  The allocator \<^verbatim>\<open>identifier\<close> (pure-utilities) is outside \<^verbatim>\<open>src/\<close>: it is a parameter
  of the model. It receives the list of excluded names; an entry \<open>None\<close> is the value
  \<^verbatim>\<open>undefined\<close>.
\<close>

type_synonym allocator = "string option list \<Rightarrow> string"

text \<open>\<^verbatim>\<open>item.name\<close>: the name of an identifier, \<^verbatim>\<open>undefined\<close> on every other node.\<close>

fun name_of :: "node \<Rightarrow> string option" where
  "name_of (Identifier x) = Some x"
| "name_of _ = None"

fun local_name :: "import_specifier \<Rightarrow> string" where
  "local_name (ImportDefaultSpecifier l) = l"
| "local_name (ImportNamespaceSpecifier l) = l"
| "local_name (ImportSpecifier i l) = l"

fun isSideEffectImportDeclaration :: "node \<Rightarrow> bool" where
  "isSideEffectImportDeclaration (ImportDeclaration specs src) = (specs = [])"
| "isSideEffectImportDeclaration _ = False"

definition getLocalSpecifier :: "string \<Rightarrow> import_specifier \<Rightarrow> pair" where
  "getLocalSpecifier src specifier = Bound src (local_name specifier)"

text \<open>
  The callback of \<^verbatim>\<open>node.specifiers.map\<close> (lines 56 to 78) for a declaration with source
  \<open>v\<close>; the dictionary is threaded through, and a TypeError ends the run. \<open>ids\<close> is
  the list computed on line 49; \<^verbatim>\<open>flatten(ids)\<close> is \<open>ids\<close>, which holds no array. The
  answer \<open>own\<close> of line 65 is \<open>map_of m v \<noteq> None\<close>: the case distinction on
  \<open>map_of m v\<close> is the branch on that answer and, where it is true, the read of the own
  property on line 66.
\<close>

fun resolveSpecifier ::
  "allocator \<Rightarrow> string option list \<Rightarrow> string \<Rightarrow> memo \<Rightarrow> import_specifier \<Rightarrow> error + pair \<times> memo" where
  "resolveSpecifier alloc ids v m (ImportDefaultSpecifier l) =
     Inr (getLocalSpecifier v (ImportDefaultSpecifier l), m)"
| "resolveSpecifier alloc ids v m (ImportNamespaceSpecifier l) =
     Inr (getLocalSpecifier v (ImportNamespaceSpecifier l), m)"
| "resolveSpecifier alloc ids v m (ImportSpecifier imported l) =
     (if imported \<noteq> l then Inr (getLocalSpecifier v (ImportSpecifier imported l), m)
      else case hasOwnProperty m v of
        Inl e \<Rightarrow> Inl e
      | Inr own \<Rightarrow>
          (case map_of m v of
             Some param \<Rightarrow> Inr (Grouped v param l, m)
           | None \<Rightarrow>
               (let identifiers = unique ids @ map Some (object_values m);
                    param = alloc identifiers
                in Inr (Grouped v param l, setProperty m v param))))"

fun resolveSpecifiers ::
  "allocator \<Rightarrow> string option list \<Rightarrow> string \<Rightarrow> memo \<Rightarrow> import_specifier list
     \<Rightarrow> error + pair list \<times> memo" where
  "resolveSpecifiers alloc ids v m [] = Inr ([], m)"
| "resolveSpecifiers alloc ids v m (s # ss) =
     (case resolveSpecifier alloc ids v m s of
        Inl e \<Rightarrow> Inl e
      | Inr (p, m1) \<Rightarrow>
          (case resolveSpecifiers alloc ids v m1 ss of
             Inl e \<Rightarrow> Inl e
           | Inr (ps, m2) \<Rightarrow> Inr (p # ps, m2)))"

text \<open>
  The callback of \<^verbatim>\<open>imports.map\<close> (lines 50 to 79), over the declarations in order. The
  list holds what \<^verbatim>\<open>find('ImportDeclaration')\<close> returned, so the last equation is never
  reached.
\<close>

fun resolveImports ::
  "allocator \<Rightarrow> string option list \<Rightarrow> memo \<Rightarrow> node list
     \<Rightarrow> error + pair one_or_many list \<times> memo" where
  "resolveImports alloc ids m [] = Inr ([], m)"
| "resolveImports alloc ids m (ImportDeclaration specs src # rest) =
     (if isSideEffectImportDeclaration (ImportDeclaration specs src)
      then (case resolveImports alloc ids m rest of
              Inl e \<Rightarrow> Inl e
            | Inr (rs, m1) \<Rightarrow> Inr (One (SideEffect src) # rs, m1))
      else (case resolveSpecifiers alloc ids src m specs of
              Inl e \<Rightarrow> Inl e
            | Inr (ps, m1) \<Rightarrow>
                (case resolveImports alloc ids m1 rest of
                   Inl e \<Rightarrow> Inl e
                 | Inr (rs, m2) \<Rightarrow> Inr (Many ps # rs, m2))))"
| "resolveImports alloc ids m (other # rest) = resolveImports alloc ids m rest"

definition getDependencyPairs :: "allocator \<Rightarrow> tree \<Rightarrow> error + pair list" where
  "getDependencyPairs alloc t =
     (let imports = find_nodes isImportDeclaration t;
          ids = unique (map name_of imports)
      in case resolveImports alloc ids [] imports of
           Inl e \<Rightarrow> Inl e
         | Inr (rs, m) \<Rightarrow> Inr (flatten rs))"

subsection \<open>Building nodes\<close>

definition useStrictLiteral :: node where
  "useStrictLiteral = ExpressionStatement (Literal (StrLit ''use strict''))"

definition prependUseStrictLiteral :: "tree \<Rightarrow> tree" where
  "prependUseStrictLiteral t = prepend useStrictLiteral t"

definition getDefine :: "node list \<Rightarrow> node" where
  "getDefine nodes = ExpressionStatement (CallExpression (Identifier ''define'') nodes)"

definition getFunctionExpression :: "node list \<Rightarrow> node list \<Rightarrow> node" where
  "getFunctionExpression params body = FunctionExpression params (BlockStatement body)"

definition getDefineWithFunctionExpression :: "node list \<Rightarrow> node" where
  "getDefineWithFunctionExpression body = getDefine [getFunctionExpression [] body]"

definition getProperty :: "node \<Rightarrow> bool option \<Rightarrow> node" where
  "getProperty n shorthand = Property n n shorthand"

definition getArrayExpression :: "node list \<Rightarrow> node" where
  "getArrayExpression elements = ArrayExpression elements"

subsection \<open>Rewriting references to grouped imports\<close>

text \<open>\<^verbatim>\<open>names.indexOf(x)\<close>: the first index that holds \<open>x\<close>, or none (\<^verbatim>\<open>-1\<close>).\<close>

fun indexOf :: "'a list \<Rightarrow> 'a \<Rightarrow> nat option" where
  "indexOf [] x = None"
| "indexOf (y # ys) x =
     (if y = x then Some 0 else case indexOf ys x of None \<Rightarrow> None | Some i \<Rightarrow> Some (Suc i))"

text \<open>
  \<^verbatim>\<open>convertIdentifierToMemberExpression\<close> reads \<^verbatim>\<open>pair.param\<close> and \<^verbatim>\<open>pair.name\<close>. It is
  only called on pairs that passed the filter of line 200, which all have the shape
  \<^verbatim>\<open>{param, element, name}\<close>; for the other shapes the model keeps the node.
\<close>

fun convertIdentifierToMemberExpression :: "pair \<Rightarrow> node \<Rightarrow> node" where
  "convertIdentifierToMemberExpression (Grouped e p n) current =
     MemberExpression (Identifier p) (Identifier n)"
| "convertIdentifierToMemberExpression _ current = current"

text \<open>The \<^verbatim>\<open>leave\<close> visitor of \<^verbatim>\<open>normalizePairs\<close> (lines 203 to 212).\<close>

fun normalizeVisitor :: "pair list \<Rightarrow> node \<Rightarrow> node" where
  "normalizeVisitor nodes (Identifier x) =
     (case indexOf (map pair_name nodes) (Some x) of
        Some index \<Rightarrow> convertIdentifierToMemberExpression (nodes ! index) (Identifier x)
      | None \<Rightarrow> Identifier x)"
| "normalizeVisitor nodes current = current"

text \<open>
  \<^verbatim>\<open>normalizePairs\<close>: \<open>normalizeNode\<close> is the traversal of one subtree, and
  \<open>normalizePairs\<close> runs it over the program. The list \<^verbatim>\<open>names\<close> of the source is
  \<open>map pair_name nodes\<close> in the visitor.
\<close>

definition normalizeNode :: "pair list \<Rightarrow> node \<Rightarrow> node" where
  "normalizeNode pairs n =
     (let nodes = filter (\<lambda>pair. truthy (pair_name pair)) pairs
      in replace_leave (normalizeVisitor nodes) n)"

definition normalizePairs :: "pair list \<Rightarrow> tree \<Rightarrow> tree" where
  "normalizePairs pairs t = map (normalizeNode pairs) t"

subsection \<open>Exports\<close>

text \<open>
  \<^verbatim>\<open>convertExportDefaultDeclarationToReturn\<close>: \<^verbatim>\<open>replace\<close> with an \<^verbatim>\<open>enter\<close> visitor
  that turns an ExportDefaultDeclaration, in place, into a ReturnStatement whose
  argument is the declaration; the traversal then goes on into the children of the
  node. (The node keeps a field \<^verbatim>\<open>declaration\<close>, the same object as the argument, which
  no traversal visits and no printer reads; the model leaves it out.)
\<close>

fun defaultVisitor :: "node \<Rightarrow> node" where
  "defaultVisitor (ExportDefaultDeclaration d) = ReturnStatement d"
| "defaultVisitor n = n"

function defaultToReturn :: "node \<Rightarrow> node" where
  "defaultToReturn n = map_children defaultToReturn (defaultVisitor n)"
  by pat_completeness auto
termination
proof (relation "measure size")
  fix n c
  assume "c \<in> set (children (defaultVisitor n))"
  then have "c \<in> set (children n)" by (cases n) auto
  then show "(c, n) \<in> measure size" by (simp add: children_size)
qed simp

definition convertExportDefaultDeclarationToReturn :: "tree \<Rightarrow> tree" where
  "convertExportDefaultDeclarationToReturn t = map defaultToReturn t"

text \<open>
  \<^verbatim>\<open>convertExportNamedDeclarationToDeclaration\<close>: \<^verbatim>\<open>replace\<close> with an \<^verbatim>\<open>enter\<close> visitor
  that returns the declaration of an ExportNamedDeclaration that has one; the
  traversal then goes on into the children of the declaration.
\<close>

fun namedVisitor :: "node \<Rightarrow> node" where
  "namedVisitor (ExportNamedDeclaration d specs src) =
     (if d \<noteq> Null then d else ExportNamedDeclaration d specs src)"
| "namedVisitor n = n"

function namedToDeclaration :: "node \<Rightarrow> node" where
  "namedToDeclaration n = map_children namedToDeclaration (namedVisitor n)"
  by pat_completeness auto
termination
proof (relation "measure size")
  fix n c
  assume c: "c \<in> set (children (namedVisitor n))"
  show "(c, n) \<in> measure size"
  proof (cases "\<exists>d specs src. n = ExportNamedDeclaration d specs src \<and> d \<noteq> Null")
    case True
    then obtain d specs src where n: "n = ExportNamedDeclaration d specs src" and "d \<noteq> Null"
      by blast
    with c have "c \<in> set (children d)" by simp
    then have "size c < size d" by (rule children_size)
    with n show ?thesis by simp
  next
    case False
    then have "namedVisitor n = n" by (cases n) auto
    with c show ?thesis by (simp add: children_size)
  qed
qed simp

definition convertExportNamedDeclarationToDeclaration :: "tree \<Rightarrow> tree" where
  "convertExportNamedDeclarationToDeclaration t = map namedToDeclaration t"

text \<open>
  \<^verbatim>\<open>node.local\<close> and \<^verbatim>\<open>node.id\<close>: the field where the node type has it, absent on every
  other node.
\<close>

fun local_of :: "node \<Rightarrow> node" where
  "local_of (ExportSpecifier l e) = l"
| "local_of _ = Null"

fun id_of :: "node \<Rightarrow> node" where
  "id_of (VariableDeclarator i e) = i"
| "id_of (FunctionDeclaration i ps b) = i"
| "id_of (ClassDeclaration i s b) = i"
| "id_of _ = Null"

text \<open>
  \<^verbatim>\<open>mapDeclarationToProperty\<close>: the \<^verbatim>\<open>specifiers\<close> of an ExportNamedDeclaration is an
  array, which is truthy also when empty, so the first test is on the declaration
  alone. The function is applied to the nodes \<^verbatim>\<open>find('ExportNamedDeclaration')\<close>
  returned.
\<close>

fun mapDeclarationToProperty :: "node \<Rightarrow> node one_or_many" where
  "mapDeclarationToProperty (ExportNamedDeclaration d specs src) =
     (if d = Null then Many (map (\<lambda>n. getProperty (local_of n) (Some True)) specs)
      else case d of
        VariableDeclaration k ds \<Rightarrow> Many (map (\<lambda>n. getProperty (id_of n) None) ds)
      | _ \<Rightarrow> One (getProperty (id_of d) None))"
| "mapDeclarationToProperty _ = Many []"

definition mapDeclarationsToProperties :: "node list \<Rightarrow> node list" where
  "mapDeclarationsToProperties declarations = flatten (map mapDeclarationToProperty declarations)"

definition getObjectExpression :: "node list \<Rightarrow> node" where
  "getObjectExpression declarations = ObjectExpression (mapDeclarationsToProperties declarations)"

text \<open>
  \<^verbatim>\<open>convertExportNamedDeclarations\<close>. The returned object is built from the nodes found
  before the wrappers are unwrapped and removed. In JavaScript these are the objects
  of the tree itself; the two later passes change such an object only where an
  ExportNamedDeclaration lies inside another node, which no parsed module has.
\<close>

definition convertExportNamedDeclarations :: "tree \<Rightarrow> tree" where
  "convertExportNamedDeclarations t =
     (let declarations = find_nodes isExportNamedDeclaration t;
          t1 = convertExportNamedDeclarationToDeclaration t;
          t2 = remove_nodes isExportNamedDeclaration t1
      in append_node (ReturnStatement (getObjectExpression declarations)) t2)"

definition convertExportDefaultDeclarationToDefine :: "tree \<Rightarrow> tree" where
  "convertExportDefaultDeclarationToDefine t =
     wrap (\<lambda>body. [getDefineWithFunctionExpression body])
       (convertExportDefaultDeclarationToReturn (prependUseStrictLiteral t))"

definition convertExportNamedDeclarationToDefine :: "tree \<Rightarrow> tree" where
  "convertExportNamedDeclarationToDefine t =
     wrap (\<lambda>body. [getDefineWithFunctionExpression body])
       (convertExportNamedDeclarations (prependUseStrictLiteral t))"

subsection \<open>Assembling the loader call\<close>

text \<open>
  The key of line 235, \<^verbatim>\<open>item.element + item.param\<close>: string concatenation, in which
  an absent \<^verbatim>\<open>param\<close> reads \<^verbatim>\<open>undefined\<close>.
\<close>

definition pair_key :: "pair \<Rightarrow> string" where
  "pair_key item =
     pair_element item @ (case pair_param item of None \<Rightarrow> ''undefined'' | Some p \<Rightarrow> p)"

definition dedupe :: "pair list \<Rightarrow> pair list" where
  "dedupe pairs = unique_by pair_key pairs"

definition dependency_elements :: "pair list \<Rightarrow> node list" where
  "dependency_elements pairs = map (\<lambda>element. Literal (StrLit element)) (map pair_element pairs)"

text \<open>
  \<^verbatim>\<open>pairs.filter(pair => pair.param).map(pair => pair.param)\<close>: the params that are
  present and not the empty string.
\<close>

definition factory_params :: "pair list \<Rightarrow> node list" where
  "factory_params pairs =
     map Identifier
       (List.map_filter (\<lambda>pair. if truthy (pair_param pair) then pair_param pair else None) pairs)"

definition wrapWithDefineWithArrayExpression :: "pair list \<Rightarrow> tree \<Rightarrow> tree" where
  "wrapWithDefineWithArrayExpression pairs0 t =
     (let pairs = dedupe pairs0;
          elements = dependency_elements pairs;
          params = factory_params pairs
      in wrap (\<lambda>body. [getDefine [getArrayExpression elements, getFunctionExpression params body]]) t)"

subsection \<open>The dispatcher\<close>

text \<open>
  A TypeError of the resolver leaves \<^verbatim>\<open>convert\<close> before the tree is touched: the result
  is the error, or the converted tree.
\<close>

definition convertCodeWithImportDeclarations :: "allocator \<Rightarrow> tree \<Rightarrow> error + tree" where
  "convertCodeWithImportDeclarations alloc t =
     (case getDependencyPairs alloc t of
        Inl e \<Rightarrow> Inl e
      | Inr pairs \<Rightarrow>
          (let t1 = remove_nodes isImportDeclaration t;
               t2 = normalizePairs pairs t1;
               t3 = (if has isExportDefaultDeclaration t2
                     then convertExportDefaultDeclarationToReturn t2
                     else if has isExportNamedDeclaration t2
                     then convertExportNamedDeclarations t2
                     else t2);
               t4 = prependUseStrictLiteral t3
           in Inr (wrapWithDefineWithArrayExpression pairs t4)))"

definition convert :: "allocator \<Rightarrow> tree \<Rightarrow> error + tree" where
  "convert alloc t =
     (if has isImportDeclaration t then convertCodeWithImportDeclarations alloc t
      else if has isExportDefaultDeclaration t then Inr (convertExportDefaultDeclarationToDefine t)
      else if has isExportNamedDeclaration t then Inr (convertExportNamedDeclarationToDefine t)
      else Inr t)"

subsection \<open>A sample allocator\<close>

text \<open>
  For running the model on concrete inputs: an allocator that returns the first of
  the names \<open>a\<close>, \<open>b\<close>, ..., \<open>z\<close> that is not excluded, and a name longer than every
  excluded name when all of them are. It never returns an excluded name. The
  theorems below are about every allocator; only the closed examples use this one.
\<close>

definition sample_identifier :: allocator where
  "sample_identifier excluded =
     (case List.find (\<lambda>c. Some c \<notin> set excluded) (map (\<lambda>c. [c]) ''abcdefghijklmnopqrstuvwxyz'') of
        Some c \<Rightarrow> c
      | None \<Rightarrow> replicate (Suc (fold max (map (case_option 0 length) excluded) 0)) CHR ''a'')"

subsection \<open>Well-formed trees and the specification of the named-export pass\<close>

text \<open>
  In a parsed module an export declaration is a top-level statement. The predicate
  says so for the named exports of a tree: no ExportNamedDeclaration lies inside a
  top-level statement.
\<close>

definition named_exports_at_top :: "tree \<Rightarrow> bool" where
  "named_exports_at_top t = list_all (\<lambda>s. \<not> has isExportNamedDeclaration (children s)) t"

text \<open>
  The specification's account of the named-export conversion, statement by statement:
  what remains of a top-level statement, and the properties it contributes to the
  returned object.
\<close>

fun spec_statement :: "node \<Rightarrow> node list" where
  "spec_statement (ExportNamedDeclaration d specs src) = (if d = Null then [] else [d])"
| "spec_statement s = [s]"

fun spec_properties :: "node \<Rightarrow> node list" where
  "spec_properties (ExportNamedDeclaration d specs src) =
     (if d = Null then map (\<lambda>s. Property (local_of s) (local_of s) (Some True)) specs
      else case d of
        VariableDeclaration k ds \<Rightarrow> map (\<lambda>x. Property (id_of x) (id_of x) None) ds
      | _ \<Rightarrow> [Property (id_of d) (id_of d) None])"
| "spec_properties s = []"

text \<open>The three node kinds the dispatcher looks for.\<close>

definition module_kinds :: "(node \<Rightarrow> bool) set" where
  "module_kinds = {isImportDeclaration, isExportDefaultDeclaration, isExportNamedDeclaration}"

section \<open>Basic facts about the tree library\<close>

declare nodes_of.simps [simp del]
declare remove_node.simps [simp del]
declare replace_leave.simps [simp del]
declare defaultToReturn.simps [simp del]
declare namedToDeclaration.simps [simp del]

lemma node_children_induct:
  assumes "\<And>n. (\<And>c. c \<in> set (children n) \<Longrightarrow> Q c) \<Longrightarrow> Q n"
  shows "Q n"
proof (induction n rule: measure_induct_rule [where f = size])
  case (less n)
  show ?case by (rule assms) (simp add: less children_size)
qed

lemma tree_nodes_Nil [simp]: "tree_nodes [] = []"
  by (simp add: tree_nodes_def)

lemma tree_nodes_Cons [simp]: "tree_nodes (n # t) = nodes_of n @ tree_nodes t"
  by (simp add: tree_nodes_def)

lemma tree_nodes_append [simp]: "tree_nodes (t @ u) = tree_nodes t @ tree_nodes u"
  by (simp add: tree_nodes_def)

lemma nodes_of_children: "nodes_of n = n # tree_nodes (children n)"
  by (subst nodes_of.simps) (simp add: tree_nodes_def)

lemma has_Nil [simp]: "has P [] = False"
  by (simp add: has_def)

lemma has_Cons: "has P (n # t) = (has P [n] \<or> has P t)"
  by (simp add: has_def)

lemma has_append [simp]: "has P (t @ u) = (has P t \<or> has P u)"
  by (simp add: has_def)

lemma has_single: "has P [n] = (P n \<or> has P (children n))"
  by (simp add: has_def nodes_of_children)

lemma has_iff: "has P t = (\<exists>n \<in> set t. has P [n])"
  by (induction t) (auto simp: has_def)

lemma children_map_slots_cases:
  assumes "c \<in> set (children (map_slots g h n))"
  shows "(\<exists>d \<in> set (children n). c = g d) \<or> (\<exists>cs. set cs \<subseteq> set (children n) \<and> c \<in> set (h cs))"
  using assms by (cases n) auto

lemma children_map_children [simp]: "children (map_children f n) = map f (children n)"
  by (cases n) (simp_all add: map_children_def)

lemma map_children_ident: "(\<And>c. c \<in> set (children n) \<Longrightarrow> f c = c) \<Longrightarrow> map_children f n = n"
  by (cases n) (simp_all add: map_children_def map_idI)

lemma isImport_map_slots [simp]: "isImportDeclaration (map_slots g h n) = isImportDeclaration n"
  by (cases n) simp_all

lemma isDefault_map_slots [simp]:
  "isExportDefaultDeclaration (map_slots g h n) = isExportDefaultDeclaration n"
  by (cases n) simp_all

lemma isNamed_map_slots [simp]:
  "isExportNamedDeclaration (map_slots g h n) = isExportNamedDeclaration n"
  by (cases n) simp_all

lemma isImport_map_children [simp]: "isImportDeclaration (map_children f n) = isImportDeclaration n"
  by (simp add: map_children_def)

lemma isDefault_map_children [simp]:
  "isExportDefaultDeclaration (map_children f n) = isExportDefaultDeclaration n"
  by (simp add: map_children_def)

lemma isNamed_map_children [simp]:
  "isExportNamedDeclaration (map_children f n) = isExportNamedDeclaration n"
  by (simp add: map_children_def)

subsection \<open>The default-export pass\<close>

lemma children_defaultVisitor [simp]: "children (defaultVisitor n) = children n"
  by (cases n) simp_all

lemma isNamed_defaultVisitor [simp]:
  "isExportNamedDeclaration (defaultVisitor n) = isExportNamedDeclaration n"
  by (cases n) simp_all

lemma isImport_defaultVisitor [simp]:
  "isImportDeclaration (defaultVisitor n) = isImportDeclaration n"
  by (cases n) simp_all

lemma isDefault_defaultVisitor [simp]: "\<not> isExportDefaultDeclaration (defaultVisitor n)"
  by (cases n) simp_all

lemma defaultToReturn_ExportDefault:
  "defaultToReturn (ExportDefaultDeclaration d) = ReturnStatement (defaultToReturn d)"
  by (subst defaultToReturn.simps) (simp add: map_children_def)

lemma has_named_defaultToReturn:
  "has isExportNamedDeclaration [defaultToReturn n] = has isExportNamedDeclaration [n]"
proof (induction n rule: node_children_induct)
  case (1 n)
  have "has isExportNamedDeclaration (map defaultToReturn (children n))
        = has isExportNamedDeclaration (children n)"
    using 1 by (subst (1 2) has_iff) simp
  then show ?case
    by (subst defaultToReturn.simps) (simp add: has_single)
qed

lemma has_import_defaultToReturn:
  "has isImportDeclaration [defaultToReturn n] = has isImportDeclaration [n]"
proof (induction n rule: node_children_induct)
  case (1 n)
  have "has isImportDeclaration (map defaultToReturn (children n))
        = has isImportDeclaration (children n)"
    using 1 by (subst (1 2) has_iff) simp
  then show ?case
    by (subst defaultToReturn.simps) (simp add: has_single)
qed

lemma no_default_defaultToReturn: "\<not> has isExportDefaultDeclaration [defaultToReturn n]"
proof (induction n rule: node_children_induct)
  case (1 n)
  have "\<not> has isExportDefaultDeclaration (map defaultToReturn (children n))"
    using 1 by (subst has_iff) simp
  then show ?case
    by (subst defaultToReturn.simps) (simp add: has_single)
qed

lemma defaultToReturn_ident: "\<not> has isExportDefaultDeclaration [n] \<Longrightarrow> defaultToReturn n = n"
proof (induction n rule: node_children_induct)
  case (1 n)
  from "1.prems" have n: "\<not> isExportDefaultDeclaration n"
    and cs: "\<And>c. c \<in> set (children n) \<Longrightarrow> \<not> has isExportDefaultDeclaration [c]"
    by (auto simp: has_single [of _ n] has_iff [of _ "children n"])
  from n have "defaultVisitor n = n" by (cases n) simp_all
  then show ?case
    by (subst defaultToReturn.simps) (simp add: map_children_ident "1.IH" cs)
qed

lemma has_useStrict [simp]:
  "\<not> has isImportDeclaration [useStrictLiteral]"
  "\<not> has isExportDefaultDeclaration [useStrictLiteral]"
  "\<not> has isExportNamedDeclaration [useStrictLiteral]"
  by (simp_all add: has_single useStrictLiteral_def)

lemma defaultToReturn_useStrict [simp]: "defaultToReturn useStrictLiteral = useStrictLiteral"
  by (rule defaultToReturn_ident) simp

lemma convertExportDefaultDeclarationToDefine_eq:
  "convertExportDefaultDeclarationToDefine t =
     [ExpressionStatement (CallExpression (Identifier ''define'')
        [FunctionExpression [] (BlockStatement (useStrictLiteral # map defaultToReturn t))])]"
  by (simp add: convertExportDefaultDeclarationToDefine_def wrap_def prepend_def
      convertExportDefaultDeclarationToReturn_def prependUseStrictLiteral_def
      getDefineWithFunctionExpression_def getDefine_def getFunctionExpression_def)

section \<open>Running the model\<close>

text \<open>The equations that compute the converter on a concrete tree.\<close>

lemmas run =
  has_def find_nodes_def tree_nodes_def nodes_of.simps remove_nodes_def remove_node.simps
  replace_leave.simps defaultToReturn.simps namedToDeclaration.simps map_children_def
  convert_def convertCodeWithImportDeclarations_def getDependencyPairs_def unique_def
  unique_by_def normalizePairs_def normalizeNode_def convertExportDefaultDeclarationToReturn_def
  convertExportNamedDeclarations_def convertExportNamedDeclarationToDeclaration_def
  prependUseStrictLiteral_def prepend_def append_node_def wrap_def
  wrapWithDefineWithArrayExpression_def dedupe_def pair_key_def dependency_elements_def
  factory_params_def getDefine_def getFunctionExpression_def getArrayExpression_def
  getProperty_def getObjectExpression_def mapDeclarationsToProperties_def
  getDefineWithFunctionExpression_def convertExportDefaultDeclarationToDefine_def
  convertExportNamedDeclarationToDefine_def getLocalSpecifier_def object_values_def
  hasOwnProperty_def setProperty_def
  useStrictLiteral_def sample_identifier_def List.map_filter_def Let_def

section \<open>The dispatcher\<close>

text \<open>
  C9. A tree with no ImportDeclaration, no ExportDefaultDeclaration and no
  ExportNamedDeclaration node is left exactly as it is by the conversion.
\<close>

theorem convert_noop:
  assumes "\<not> has isImportDeclaration t"
    and "\<not> has isExportDefaultDeclaration t"
    and "\<not> has isExportNamedDeclaration t"
  shows "convert alloc t = Inr t"
  using assms by (simp add: convert_def)


theorem convert_noop_witness:
  "\<not> has isImportDeclaration [ExpressionStatement (CallExpression (Identifier ''f'') [Identifier ''x''])]
   \<and> \<not> has isExportDefaultDeclaration [ExpressionStatement (CallExpression (Identifier ''f'') [Identifier ''x''])]
   \<and> \<not> has isExportNamedDeclaration [ExpressionStatement (CallExpression (Identifier ''f'') [Identifier ''x''])]
   \<and> convert sample_identifier [ExpressionStatement (CallExpression (Identifier ''f'') [Identifier ''x''])]
       = Inr [ExpressionStatement (CallExpression (Identifier ''f'') [Identifier ''x''])]"
proof -
  let ?t = "[ExpressionStatement (CallExpression (Identifier ''f'') [Identifier ''x''])]"
  have h1: "\<not> has isImportDeclaration ?t" by (simp add: has_def nodes_of.simps)
  have h2: "\<not> has isExportDefaultDeclaration ?t" by (simp add: has_def nodes_of.simps)
  have h3: "\<not> has isExportNamedDeclaration ?t" by (simp add: has_def nodes_of.simps)
  from convert_noop [OF h1 h2 h3] h1 h2 h3 show ?thesis by blast
qed

text \<open>
  C7. The dispatcher tests for ImportDeclaration, then ExportDefaultDeclaration, then
  ExportNamedDeclaration, and runs the conversion of the first kind that is present and
  no other: with an import the import-aware conversion runs whatever exports the tree
  has, and its result is the two-argument loader call, or the TypeError of the resolver
  where the resolver raises one; with no import and a default export the default-export
  conversion runs; with neither and a named export the named-export conversion runs;
  with none of the three the tree is returned as it is.
\<close>

theorem convert_dispatch:
  "(has isImportDeclaration t \<longrightarrow>
      convert alloc t = convertCodeWithImportDeclarations alloc t
      \<and> (\<forall>pairs. getDependencyPairs alloc t = Inr pairs \<longrightarrow>
           (\<exists>elements params body. convert alloc t =
              Inr [ExpressionStatement (CallExpression (Identifier ''define'')
                     [ArrayExpression elements,
                      FunctionExpression params (BlockStatement (useStrictLiteral # body))])]))
      \<and> (\<forall>e. getDependencyPairs alloc t = Inl e \<longrightarrow> convert alloc t = Inl e))
   \<and> (\<not> has isImportDeclaration t \<and> has isExportDefaultDeclaration t \<longrightarrow>
      convert alloc t = Inr (convertExportDefaultDeclarationToDefine t))
   \<and> (\<not> has isImportDeclaration t \<and> \<not> has isExportDefaultDeclaration t
        \<and> has isExportNamedDeclaration t \<longrightarrow>
      convert alloc t = Inr (convertExportNamedDeclarationToDefine t))
   \<and> (\<not> has isImportDeclaration t \<and> \<not> has isExportDefaultDeclaration t
        \<and> \<not> has isExportNamedDeclaration t \<longrightarrow>
      convert alloc t = Inr t)"
  by (simp add: convert_def convertCodeWithImportDeclarations_def
      wrapWithDefineWithArrayExpression_def wrap_def prependUseStrictLiteral_def prepend_def
      getDefine_def getArrayExpression_def getFunctionExpression_def Let_def)

theorem convert_dispatch_witness:
  "has isImportDeclaration
     [ImportDeclaration [ImportDefaultSpecifier ''foo''] ''a'',
      ExportNamedDeclaration Null [ExportSpecifier (Identifier ''foo'') (Identifier ''foo'')] None,
      ExportDefaultDeclaration (Identifier ''foo'')]
   \<and> convert sample_identifier
     [ImportDeclaration [ImportDefaultSpecifier ''foo''] ''a'',
      ExportNamedDeclaration Null [ExportSpecifier (Identifier ''foo'') (Identifier ''foo'')] None,
      ExportDefaultDeclaration (Identifier ''foo'')]
     = convertCodeWithImportDeclarations sample_identifier
     [ImportDeclaration [ImportDefaultSpecifier ''foo''] ''a'',
      ExportNamedDeclaration Null [ExportSpecifier (Identifier ''foo'') (Identifier ''foo'')] None,
      ExportDefaultDeclaration (Identifier ''foo'')]
   \<and> convert sample_identifier
     [ImportDeclaration [ImportDefaultSpecifier ''foo''] ''a'',
      ExportNamedDeclaration Null [ExportSpecifier (Identifier ''foo'') (Identifier ''foo'')] None,
      ExportDefaultDeclaration (Identifier ''foo'')]
     = Inr [ExpressionStatement (CallExpression (Identifier ''define'')
          [ArrayExpression [Literal (StrLit ''a'')],
           FunctionExpression [Identifier ''foo'']
             (BlockStatement
                [useStrictLiteral,
                 ExportNamedDeclaration Null
                   [ExportSpecifier (Identifier ''foo'') (Identifier ''foo'')] None,
                 ReturnStatement (Identifier ''foo'')])])]"
proof -
  let ?t = "[ImportDeclaration [ImportDefaultSpecifier ''foo''] ''a'',
      ExportNamedDeclaration Null [ExportSpecifier (Identifier ''foo'') (Identifier ''foo'')] None,
      ExportDefaultDeclaration (Identifier ''foo'')]"
  have h: "has isImportDeclaration ?t" by (simp add: has_def nodes_of.simps)
  have c: "convert sample_identifier ?t = convertCodeWithImportDeclarations sample_identifier ?t"
    using convert_dispatch [of ?t sample_identifier] h by blast
  have "convertCodeWithImportDeclarations sample_identifier ?t
     = Inr [ExpressionStatement (CallExpression (Identifier ''define'')
          [ArrayExpression [Literal (StrLit ''a'')],
           FunctionExpression [Identifier ''foo'']
             (BlockStatement
                [useStrictLiteral,
                 ExportNamedDeclaration Null
                   [ExportSpecifier (Identifier ''foo'') (Identifier ''foo'')] None,
                 ReturnStatement (Identifier ''foo'')])])]"
    by (simp add: run)
  with h c show ?thesis by simp
qed


section \<open>Export conversion\<close>

lemma has_Cons_unfold: "has P (n # t) = (P n \<or> has P (children n) \<or> has P t)"
  by (simp add: has_def nodes_of_children)

lemma has_map_defaultToReturn:
  "has isExportNamedDeclaration (map defaultToReturn t) = has isExportNamedDeclaration t"
  by (subst (1 2) has_iff) (simp add: has_named_defaultToReturn)

text \<open>
  C10. With no import, a default export and a named export, only the default-export
  conversion runs: the result is the one-argument loader call whose factory body is the
  directive followed by the statements after the default-export pass. That pass leaves
  every statement without an ExportDefaultDeclaration as it is, so the
  ExportNamedDeclaration statements stand unconverted in the factory body and the
  output still contains ExportNamedDeclaration nodes.
\<close>

theorem default_export_shadows_named:
  assumes "\<not> has isImportDeclaration t"
    and "has isExportDefaultDeclaration t"
    and "has isExportNamedDeclaration t"
  shows "convert alloc t = Inr (convertExportDefaultDeclarationToDefine t)
    \<and> convert alloc t =
        Inr [ExpressionStatement (CallExpression (Identifier ''define'')
           [FunctionExpression [] (BlockStatement (useStrictLiteral # map defaultToReturn t))])]
    \<and> (\<forall>s \<in> set t. isExportNamedDeclaration s \<and> \<not> has isExportDefaultDeclaration [s]
          \<longrightarrow> defaultToReturn s = s)
    \<and> has isExportNamedDeclaration (convertExportDefaultDeclarationToDefine t)"
proof -
  have c: "convert alloc t = Inr (convertExportDefaultDeclarationToDefine t)"
    using assms by (simp add: convert_def)
  have "has isExportNamedDeclaration (convertExportDefaultDeclarationToDefine t)
        = has isExportNamedDeclaration (map defaultToReturn t)"
    by (simp add: convertExportDefaultDeclarationToDefine_eq has_Cons_unfold useStrictLiteral_def)
  with assms(3) have "has isExportNamedDeclaration (convertExportDefaultDeclarationToDefine t)"
    by (simp add: has_map_defaultToReturn)
  with c show ?thesis
    by (simp add: convertExportDefaultDeclarationToDefine_eq defaultToReturn_ident)
qed

theorem default_export_shadows_named_witness:
  "\<not> has isImportDeclaration
      [ExportNamedDeclaration Null [ExportSpecifier (Identifier ''a'') (Identifier ''a'')] None,
       ExportDefaultDeclaration (Literal (NumLit 1))]
   \<and> has isExportDefaultDeclaration
      [ExportNamedDeclaration Null [ExportSpecifier (Identifier ''a'') (Identifier ''a'')] None,
       ExportDefaultDeclaration (Literal (NumLit 1))]
   \<and> has isExportNamedDeclaration
      [ExportNamedDeclaration Null [ExportSpecifier (Identifier ''a'') (Identifier ''a'')] None,
       ExportDefaultDeclaration (Literal (NumLit 1))]
   \<and> convert sample_identifier
      [ExportNamedDeclaration Null [ExportSpecifier (Identifier ''a'') (Identifier ''a'')] None,
       ExportDefaultDeclaration (Literal (NumLit 1))]
     = Inr [ExpressionStatement (CallExpression (Identifier ''define'')
          [FunctionExpression []
             (BlockStatement
                [useStrictLiteral,
                 ExportNamedDeclaration Null
                   [ExportSpecifier (Identifier ''a'') (Identifier ''a'')] None,
                 ReturnStatement (Literal (NumLit 1))])])]
   \<and> has isExportNamedDeclaration
      (convertExportDefaultDeclarationToDefine
        [ExportNamedDeclaration Null [ExportSpecifier (Identifier ''a'') (Identifier ''a'')] None,
         ExportDefaultDeclaration (Literal (NumLit 1))])"
proof -
  let ?t = "[ExportNamedDeclaration Null [ExportSpecifier (Identifier ''a'') (Identifier ''a'')] None,
       ExportDefaultDeclaration (Literal (NumLit 1))]"
  have h1: "\<not> has isImportDeclaration ?t" by (simp add: has_def nodes_of.simps)
  have h2: "has isExportDefaultDeclaration ?t" by (simp add: has_def nodes_of.simps)
  have h3: "has isExportNamedDeclaration ?t" by (simp add: has_def nodes_of.simps)
  have e: "map defaultToReturn ?t =
      [ExportNamedDeclaration Null [ExportSpecifier (Identifier ''a'') (Identifier ''a'')] None,
       ReturnStatement (Literal (NumLit 1))]"
    by (simp add: defaultToReturn.simps map_children_def)
  note r = default_export_shadows_named [OF h1 h2 h3, of sample_identifier]
  from r have "convert sample_identifier ?t =
        Inr [ExpressionStatement (CallExpression (Identifier ''define'')
           [FunctionExpression [] (BlockStatement (useStrictLiteral # map defaultToReturn ?t))])]"
    by blast
  then have a: "convert sample_identifier ?t =
        Inr [ExpressionStatement (CallExpression (Identifier ''define'')
           [FunctionExpression []
              (BlockStatement
                 [useStrictLiteral,
                  ExportNamedDeclaration Null
                    [ExportSpecifier (Identifier ''a'') (Identifier ''a'')] None,
                  ReturnStatement (Literal (NumLit 1))])])]"
    by (simp only: e)
  from r have b: "has isExportNamedDeclaration (convertExportDefaultDeclarationToDefine ?t)"
    by blast
  from h1 h2 h3 a b show ?thesis by blast
qed


subsection \<open>Named exports\<close>

lemma map_slots_ident:
  assumes "\<And>c. c \<in> set (children n) \<Longrightarrow> g c = c"
    and "\<And>cs. set cs \<subseteq> set (children n) \<Longrightarrow> h cs = cs"
  shows "map_slots g h n = n"
  using assms by (cases n) auto

lemma has_children_iff:
  "has P (children n) = (\<exists>c \<in> set (children n). P c \<or> has P (children c))"
  by (subst has_iff) (simp add: has_single)

lemma remove_node_ident: "\<not> has P (children n) \<Longrightarrow> remove_node P n = n"
proof (induction n rule: node_children_induct)
  case (1 n)
  from "1.prems" have cs: "\<And>c. c \<in> set (children n) \<Longrightarrow> \<not> P c \<and> \<not> has P (children c)"
    by (auto simp: has_children_iff [of P n])
  show ?case
  proof (subst remove_node.simps, rule map_slots_ident)
    fix c assume "c \<in> set (children n)"
    then show "(if P c then Null else remove_node P c) = c"
      using cs "1.IH" by simp
  next
    fix ds assume ds: "set ds \<subseteq> set (children n)"
    then have "filter (\<lambda>c. \<not> P c) ds = ds" using cs by (auto simp: filter_id_conv)
    moreover have "map (remove_node P) ds = ds"
      using ds cs "1.IH" by (auto intro!: map_idI)
    ultimately show "map (remove_node P) (filter (\<lambda>c. \<not> P c) ds) = ds" by simp
  qed
qed

lemma namedToDeclaration_children_ident:
  "\<not> has isExportNamedDeclaration (children n) \<Longrightarrow> map_children namedToDeclaration n = n"
proof (induction n rule: node_children_induct)
  case (1 n)
  show ?case
  proof (rule map_children_ident)
    fix c assume c: "c \<in> set (children n)"
    with "1.prems" have nc: "\<not> isExportNamedDeclaration c"
      and ncs: "\<not> has isExportNamedDeclaration (children c)"
      by (auto simp: has_children_iff [of _ n])
    from nc have "namedVisitor c = c" by (cases c) simp_all
    then show "namedToDeclaration c = c"
      using "1.IH" [OF c ncs] by (subst namedToDeclaration.simps) simp
  qed
qed

lemma namedToDeclaration_top:
  assumes "\<not> has isExportNamedDeclaration (children s)"
  shows "map (remove_node isExportNamedDeclaration)
           (filter (\<lambda>c. \<not> isExportNamedDeclaration c) [namedToDeclaration s])
         = spec_statement s"
proof (cases "\<exists>d specs src. s = ExportNamedDeclaration d specs src \<and> d \<noteq> Null")
  case True
  then obtain d specs src where s: "s = ExportNamedDeclaration d specs src" and d: "d \<noteq> Null"
    by blast
  from assms s have nd: "\<not> isExportNamedDeclaration d"
    and ncs: "\<not> has isExportNamedDeclaration (children d)"
    by (auto simp: has_Cons_unfold)
  have "namedToDeclaration s = d"
    using s d ncs by (subst namedToDeclaration.simps) (simp add: namedToDeclaration_children_ident)
  then show ?thesis
    using s d nd ncs by (simp add: remove_node_ident)
next
  case False
  then have v: "namedVisitor s = s" by (cases s) auto
  have e: "namedToDeclaration s = s"
    using assms v by (subst namedToDeclaration.simps) (simp add: namedToDeclaration_children_ident)
  show ?thesis
  proof (cases "isExportNamedDeclaration s")
    case True
    with False show ?thesis using e by (cases s) auto
  next
    case False
    then have "spec_statement s = [s]" by (cases s) simp_all
    with False e assms show ?thesis by (simp add: remove_node_ident)
  qed
qed

lemma named_statements:
  "named_exports_at_top t \<Longrightarrow>
   remove_nodes isExportNamedDeclaration (convertExportNamedDeclarationToDeclaration t)
   = concat (map spec_statement t)"
proof (induction t)
  case Nil
  then show ?case
    by (simp add: remove_nodes_def convertExportNamedDeclarationToDeclaration_def)
next
  case (Cons s t)
  from Cons.prems have s: "\<not> has isExportNamedDeclaration (children s)"
    and t: "named_exports_at_top t"
    by (simp_all add: named_exports_at_top_def)
  have "remove_nodes isExportNamedDeclaration (convertExportNamedDeclarationToDeclaration (s # t))
      = map (remove_node isExportNamedDeclaration)
           (filter (\<lambda>c. \<not> isExportNamedDeclaration c) [namedToDeclaration s])
        @ remove_nodes isExportNamedDeclaration (convertExportNamedDeclarationToDeclaration t)"
    by (simp add: remove_nodes_def convertExportNamedDeclarationToDeclaration_def)
  then show ?case
    using Cons.IH [OF t] namedToDeclaration_top [OF s] by simp
qed

lemma find_named_top:
  "named_exports_at_top t \<Longrightarrow>
   find_nodes isExportNamedDeclaration t = filter isExportNamedDeclaration t"
proof (induction t)
  case Nil
  then show ?case by (simp add: find_nodes_def)
next
  case (Cons s t)
  from Cons.prems have s: "\<not> has isExportNamedDeclaration (children s)"
    and t: "named_exports_at_top t"
    by (simp_all add: named_exports_at_top_def)
  from s have "filter isExportNamedDeclaration (tree_nodes (children s)) = []"
    by (simp add: has_def list_ex_iff filter_empty_conv)
  then show ?case
    using Cons.IH [OF t] by (simp add: find_nodes_def nodes_of_children)
qed

lemma mapDeclarationToProperty_spec:
  "flatten (map mapDeclarationToProperty (filter isExportNamedDeclaration t))
   = concat (map spec_properties t)"
proof (induction t)
  case Nil
  then show ?case by simp
next
  case (Cons s t)
  show ?case
  proof (cases s)
    case (ExportNamedDeclaration d specs src)
    then show ?thesis
      using Cons.IH by (cases d) (simp_all add: getProperty_def)
  qed (use Cons.IH in simp_all)
qed

lemma convertExportNamedDeclarations_top:
  assumes "named_exports_at_top t"
  shows "convertExportNamedDeclarations t
     = concat (map spec_statement t)
       @ [ReturnStatement (ObjectExpression (concat (map spec_properties t)))]"
  using assms
  by (simp add: convertExportNamedDeclarations_def Let_def append_node_def named_statements
      find_named_top getObjectExpression_def mapDeclarationsToProperties_def
      mapDeclarationToProperty_spec)


lemma has_set: "has P t = (\<exists>m \<in> set (tree_nodes t). P m)"
  by (simp add: has_def list_ex_iff)

lemma no_named_spec_statement:
  assumes "\<not> has isExportNamedDeclaration (children s)"
  shows "\<not> has isExportNamedDeclaration (spec_statement s)"
proof (cases "isExportNamedDeclaration s")
  case True
  then obtain d specs src where s: "s = ExportNamedDeclaration d specs src" by (cases s) auto
  with assms show ?thesis by (auto simp: has_Cons_unfold)
next
  case False
  then have "spec_statement s = [s]" by (cases s) simp_all
  with False assms show ?thesis by (simp add: has_single)
qed

lemma no_named_spec_statements:
  "named_exports_at_top t \<Longrightarrow> \<not> has isExportNamedDeclaration (concat (map spec_statement t))"
  by (induction t) (simp_all add: named_exports_at_top_def no_named_spec_statement)

text \<open>
  C5. Named-export conversion. A declaration with specifiers and no inline
  declaration yields one shorthand property per specifier, key and value both the
  specifier's local node (not the exported name). A declaration that wraps a
  VariableDeclaration yields one property without the shorthand flag per declarator
  id. On a tree whose named exports are top-level statements, the conversion keeps
  the wrapped declaration as an ordinary statement in the place of its wrapper, drops
  the wrappers that have no declaration, leaves every other statement alone, and
  appends exactly one return statement whose argument is the object of all collected
  properties, in declaration order and specifier order within a declaration; no
  ExportNamedDeclaration wrapper is left among the statements.
\<close>

theorem named_export_conversion:
  "mapDeclarationToProperty (ExportNamedDeclaration Null specs src)
     = Many (map (\<lambda>s. Property (local_of s) (local_of s) (Some True)) specs)
   \<and> local_of (ExportSpecifier l e) = l
   \<and> mapDeclarationToProperty (ExportNamedDeclaration (VariableDeclaration k ds) specs src)
     = Many (map (\<lambda>x. Property (id_of x) (id_of x) None) ds)
   \<and> id_of (VariableDeclarator i init) = i
   \<and> spec_statement (ExportNamedDeclaration (VariableDeclaration k ds) specs src)
     = [VariableDeclaration k ds]
   \<and> (named_exports_at_top t \<longrightarrow>
        convertExportNamedDeclarations t
          = concat (map spec_statement t)
            @ [ReturnStatement (ObjectExpression (concat (map spec_properties t)))]
        \<and> \<not> has isExportNamedDeclaration (concat (map spec_statement t)))"
  by (simp add: getProperty_def convertExportNamedDeclarations_top no_named_spec_statements)

theorem named_export_conversion_witness:
  "named_exports_at_top
     [ExportNamedDeclaration
        (VariableDeclaration ''const''
           [VariableDeclarator (Identifier ''a'') (Literal (NumLit 1)),
            VariableDeclarator (Identifier ''d'') (Literal (NumLit 2))]) [] None,
      ExpressionStatement (CallExpression (Identifier ''f'') []),
      ExportNamedDeclaration Null
        [ExportSpecifier (Identifier ''a'') (Identifier ''a''),
         ExportSpecifier (Identifier ''b'') (Identifier ''c'')] None]
   \<and> convertExportNamedDeclarations
     [ExportNamedDeclaration
        (VariableDeclaration ''const''
           [VariableDeclarator (Identifier ''a'') (Literal (NumLit 1)),
            VariableDeclarator (Identifier ''d'') (Literal (NumLit 2))]) [] None,
      ExpressionStatement (CallExpression (Identifier ''f'') []),
      ExportNamedDeclaration Null
        [ExportSpecifier (Identifier ''a'') (Identifier ''a''),
         ExportSpecifier (Identifier ''b'') (Identifier ''c'')] None]
     = [VariableDeclaration ''const''
           [VariableDeclarator (Identifier ''a'') (Literal (NumLit 1)),
            VariableDeclarator (Identifier ''d'') (Literal (NumLit 2))],
        ExpressionStatement (CallExpression (Identifier ''f'') []),
        ReturnStatement (ObjectExpression
          [Property (Identifier ''a'') (Identifier ''a'') None,
           Property (Identifier ''d'') (Identifier ''d'') None,
           Property (Identifier ''a'') (Identifier ''a'') (Some True),
           Property (Identifier ''b'') (Identifier ''b'') (Some True)])]"
proof -
  let ?t = "[ExportNamedDeclaration
        (VariableDeclaration ''const''
           [VariableDeclarator (Identifier ''a'') (Literal (NumLit 1)),
            VariableDeclarator (Identifier ''d'') (Literal (NumLit 2))]) [] None,
      ExpressionStatement (CallExpression (Identifier ''f'') []),
      ExportNamedDeclaration Null
        [ExportSpecifier (Identifier ''a'') (Identifier ''a''),
         ExportSpecifier (Identifier ''b'') (Identifier ''c'')] None]"
  have h: "named_exports_at_top ?t"
    by (simp add: named_exports_at_top_def has_def nodes_of.simps)
  from named_export_conversion [of _ _ _ _ _ _ _ _ ?t] h
  have "convertExportNamedDeclarations ?t
          = concat (map spec_statement ?t)
            @ [ReturnStatement (ObjectExpression (concat (map spec_properties ?t)))]"
    by blast
  with h show ?thesis by simp
qed

lemma convertExportNamedDeclarationToDefine_top:
  assumes "named_exports_at_top t"
  shows "convertExportNamedDeclarationToDefine t =
      [ExpressionStatement (CallExpression (Identifier ''define'')
         [FunctionExpression []
            (BlockStatement
               (useStrictLiteral # concat (map spec_statement t)
                @ [ReturnStatement (ObjectExpression (concat (map spec_properties t)))]))])]"
proof -
  have "named_exports_at_top (useStrictLiteral # t)"
    using assms by (simp add: named_exports_at_top_def useStrictLiteral_def has_def nodes_of.simps)
  then show ?thesis
    by (simp add: convertExportNamedDeclarationToDefine_def wrap_def prependUseStrictLiteral_def
        prepend_def convertExportNamedDeclarations_top getDefineWithFunctionExpression_def
        getDefine_def getFunctionExpression_def)
      (simp add: useStrictLiteral_def)
qed

text \<open>
  C6, as amended. For a tree with no ImportDeclaration:
  with an ExportDefaultDeclaration the result is exactly one expression statement
  calling \<open>define\<close> with one argument, a function expression without parameters whose
  block is the \<open>use strict\<close> directive followed by the statements after the
  default-export pass, which turns an ExportDefaultDeclaration where it stands into a
  return statement of the default value (so the block ends with a return statement
  when the default export is the last statement, not in general);
  with no ExportDefaultDeclaration and with ExportNamedDeclarations, all top-level
  statements, the result is the same call whose block is the directive, the
  statements with the export wrappers unwrapped or dropped, and at the end one return
  statement of the object of the named exports.
\<close>

theorem convert_export_only:
  assumes "\<not> has isImportDeclaration t"
  shows "(has isExportDefaultDeclaration t \<longrightarrow>
            convert alloc t =
              Inr [ExpressionStatement (CallExpression (Identifier ''define'')
                 [FunctionExpression []
                    (BlockStatement (useStrictLiteral # map defaultToReturn t))])]
            \<and> (\<forall>d. defaultToReturn (ExportDefaultDeclaration d)
                     = ReturnStatement (defaultToReturn d))
            \<and> (\<forall>s \<in> set t. \<not> has isExportDefaultDeclaration [s]
                     \<longrightarrow> defaultToReturn s = s))
     \<and> (\<not> has isExportDefaultDeclaration t \<and> has isExportNamedDeclaration t
          \<and> named_exports_at_top t \<longrightarrow>
            convert alloc t =
              Inr [ExpressionStatement (CallExpression (Identifier ''define'')
                 [FunctionExpression []
                    (BlockStatement
                       (useStrictLiteral # concat (map spec_statement t)
                        @ [ReturnStatement
                             (ObjectExpression (concat (map spec_properties t)))]))])])"
  using assms
  by (simp add: convert_def convertExportDefaultDeclarationToDefine_eq
      defaultToReturn_ExportDefault defaultToReturn_ident
      convertExportNamedDeclarationToDefine_top)

theorem convert_export_only_witness:
  "\<not> has isImportDeclaration [ExportDefaultDeclaration (Literal (NumLit 42))]
   \<and> has isExportDefaultDeclaration [ExportDefaultDeclaration (Literal (NumLit 42))]
   \<and> convert sample_identifier [ExportDefaultDeclaration (Literal (NumLit 42))]
      = Inr [ExpressionStatement (CallExpression (Identifier ''define'')
           [FunctionExpression []
              (BlockStatement [useStrictLiteral, ReturnStatement (Literal (NumLit 42))])])]
   \<and> \<not> has isImportDeclaration
      [ExportNamedDeclaration
         (VariableDeclaration ''const''
            [VariableDeclarator (Identifier ''a'') (Literal (NumLit 1))]) [] None]
   \<and> \<not> has isExportDefaultDeclaration
      [ExportNamedDeclaration
         (VariableDeclaration ''const''
            [VariableDeclarator (Identifier ''a'') (Literal (NumLit 1))]) [] None]
   \<and> has isExportNamedDeclaration
      [ExportNamedDeclaration
         (VariableDeclaration ''const''
            [VariableDeclarator (Identifier ''a'') (Literal (NumLit 1))]) [] None]
   \<and> named_exports_at_top
      [ExportNamedDeclaration
         (VariableDeclaration ''const''
            [VariableDeclarator (Identifier ''a'') (Literal (NumLit 1))]) [] None]
   \<and> convert sample_identifier
      [ExportNamedDeclaration
         (VariableDeclaration ''const''
            [VariableDeclarator (Identifier ''a'') (Literal (NumLit 1))]) [] None]
      = Inr [ExpressionStatement (CallExpression (Identifier ''define'')
           [FunctionExpression []
              (BlockStatement
                 [useStrictLiteral,
                  VariableDeclaration ''const''
                    [VariableDeclarator (Identifier ''a'') (Literal (NumLit 1))],
                  ReturnStatement
                    (ObjectExpression
                       [Property (Identifier ''a'') (Identifier ''a'') None])])])]"
proof -
  let ?t = "[ExportDefaultDeclaration (Literal (NumLit 42))]"
  let ?u = "[ExportNamedDeclaration
         (VariableDeclaration ''const''
            [VariableDeclarator (Identifier ''a'') (Literal (NumLit 1))]) [] None]"
  have t1: "\<not> has isImportDeclaration ?t" by (simp add: has_def nodes_of.simps)
  have t2: "has isExportDefaultDeclaration ?t" by (simp add: has_def nodes_of.simps)
  have u1: "\<not> has isImportDeclaration ?u" by (simp add: has_def nodes_of.simps)
  have u2: "\<not> has isExportDefaultDeclaration ?u" by (simp add: has_def nodes_of.simps)
  have u3: "has isExportNamedDeclaration ?u" by (simp add: has_def nodes_of.simps)
  have u4: "named_exports_at_top ?u"
    by (simp add: named_exports_at_top_def has_def nodes_of.simps)
  have e: "map defaultToReturn ?t = [ReturnStatement (Literal (NumLit 42))]"
    by (simp add: defaultToReturn.simps map_children_def)
  from convert_export_only [OF t1, of sample_identifier] t2
  have "convert sample_identifier ?t =
              Inr [ExpressionStatement (CallExpression (Identifier ''define'')
                 [FunctionExpression []
                    (BlockStatement (useStrictLiteral # map defaultToReturn ?t))])]"
    by blast
  then have a: "convert sample_identifier ?t
      = Inr [ExpressionStatement (CallExpression (Identifier ''define'')
           [FunctionExpression []
              (BlockStatement [useStrictLiteral, ReturnStatement (Literal (NumLit 42))])])]"
    by (simp only: e)
  from convert_export_only [OF u1, of sample_identifier] u2 u3 u4
  have "convert sample_identifier ?u =
              Inr [ExpressionStatement (CallExpression (Identifier ''define'')
                 [FunctionExpression []
                    (BlockStatement
                       (useStrictLiteral # concat (map spec_statement ?u)
                        @ [ReturnStatement
                             (ObjectExpression (concat (map spec_properties ?u)))]))])]"
    by blast
  then have b: "convert sample_identifier ?u
      = Inr [ExpressionStatement (CallExpression (Identifier ''define'')
           [FunctionExpression []
              (BlockStatement
                 [useStrictLiteral,
                  VariableDeclaration ''const''
                    [VariableDeclarator (Identifier ''a'') (Literal (NumLit 1))],
                  ReturnStatement
                    (ObjectExpression
                       [Property (Identifier ''a'') (Identifier ''a'') None])])])]"
    by simp
  from t1 t2 a u1 u2 u3 u4 b show ?thesis by blast
qed

text \<open>
  The claim C6 as stated fails: for \<^verbatim>\<open>export default 42; f()\<close> the block of the factory
  ends with the statement \<^verbatim>\<open>f()\<close>, not with a return statement.
\<close>

theorem convert_export_only_counterexample:
  "\<not> has isImportDeclaration
      [ExportDefaultDeclaration (Literal (NumLit 42)),
       ExpressionStatement (CallExpression (Identifier ''f'') [])]
   \<and> has isExportDefaultDeclaration
      [ExportDefaultDeclaration (Literal (NumLit 42)),
       ExpressionStatement (CallExpression (Identifier ''f'') [])]
   \<and> convert sample_identifier
      [ExportDefaultDeclaration (Literal (NumLit 42)),
       ExpressionStatement (CallExpression (Identifier ''f'') [])]
     = Inr [ExpressionStatement (CallExpression (Identifier ''define'')
          [FunctionExpression []
             (BlockStatement
                [ExpressionStatement (Literal (StrLit ''use strict'')),
                 ReturnStatement (Literal (NumLit 42)),
                 ExpressionStatement (CallExpression (Identifier ''f'') [])])])]"
  by (simp add: run)


section \<open>The resolver\<close>

lemma resolveSpecifier_memo:
  assumes "resolveSpecifier alloc ids v m s = Inr (p, m')"
  shows "(\<forall>e x. map_of m e = Some x \<longrightarrow> map_of m' e = Some x)
       \<and> (\<forall>e x n. p = Grouped e x n \<longrightarrow>
             e = v \<and> (v \<noteq> ''__proto__'' \<longrightarrow> map_of m' e = Some x))"
proof (cases s)
  case (ImportSpecifier i l)
  with assms show ?thesis
    by (auto simp: getLocalSpecifier_def hasOwnProperty_def setProperty_def Let_def map_add_def
        split: if_splits option.splits)
qed (use assms in \<open>auto simp: getLocalSpecifier_def\<close>)

lemma resolveSpecifiers_memo:
  assumes "resolveSpecifiers alloc ids v m ss = Inr (ps, m')"
  shows "(\<forall>e x. map_of m e = Some x \<longrightarrow> map_of m' e = Some x)
       \<and> (\<forall>e x n. Grouped e x n \<in> set ps \<longrightarrow>
             e = v \<and> (v \<noteq> ''__proto__'' \<longrightarrow> map_of m' e = Some x))"
  using assms
proof (induction ss arbitrary: m ps m')
  case Nil
  then show ?case by simp
next
  case (Cons s ss)
  from Cons.prems obtain p m1 where s: "resolveSpecifier alloc ids v m s = Inr (p, m1)"
    by (cases "resolveSpecifier alloc ids v m s") (auto simp del: resolveSpecifier.simps)
  with Cons.prems obtain qs m2 where ss: "resolveSpecifiers alloc ids v m1 ss = Inr (qs, m2)"
    by (cases "resolveSpecifiers alloc ids v m1 ss") (auto simp del: resolveSpecifier.simps)
  from Cons.prems s ss have ps: "ps = p # qs" and m': "m' = m2"
    by (simp_all del: resolveSpecifier.simps)
  note a = resolveSpecifier_memo [OF s]
  note b = Cons.IH [OF ss]
  show ?case unfolding ps m' using a b by (simp del: resolveSpecifier.simps) blast
qed

lemma resolveImports_memo:
  assumes "resolveImports alloc ids m ns = Inr (rs, m')"
  shows "(\<forall>e x. map_of m e = Some x \<longrightarrow> map_of m' e = Some x)
       \<and> (\<forall>e x n. Grouped e x n \<in> set (flatten rs) \<longrightarrow>
             e \<noteq> ''__proto__'' \<longrightarrow> map_of m' e = Some x)"
  using assms
proof (induction ns arbitrary: m rs m')
  case Nil
  then show ?case by simp
next
  case (Cons n ns)
  show ?case
  proof (cases n)
    case (ImportDeclaration specs src)
    show ?thesis
    proof (cases "specs = []")
      case True
      with Cons.prems ImportDeclaration obtain qs m1
        where r: "resolveImports alloc ids m ns = Inr (qs, m1)"
        by (cases "resolveImports alloc ids m ns") auto
      with Cons.prems ImportDeclaration True
      have rs: "rs = One (SideEffect src) # qs" and m': "m' = m1" by simp_all
      from Cons.IH [OF r] show ?thesis unfolding rs m' by simp
    next
      case False
      with Cons.prems ImportDeclaration obtain ps m1
        where s: "resolveSpecifiers alloc ids src m specs = Inr (ps, m1)"
        by (cases "resolveSpecifiers alloc ids src m specs") auto
      with Cons.prems ImportDeclaration False obtain qs m2
        where r: "resolveImports alloc ids m1 ns = Inr (qs, m2)"
        by (cases "resolveImports alloc ids m1 ns") auto
      from Cons.prems ImportDeclaration False s r
      have rs: "rs = Many ps # qs" and m': "m' = m2" by simp_all
      note a = resolveSpecifiers_memo [OF s]
      note b = Cons.IH [OF r]
      show ?thesis unfolding rs m' using a b by simp blast
    qed
  qed (use Cons in simp_all)
qed

text \<open>
  What holds of the dictionary: where the resolver returns, the grouped imports of a
  module other than \<^verbatim>\<open>__proto__\<close> carry one parameter.
\<close>

lemma grouped_imports_share_param_ordinary:
  assumes "getDependencyPairs alloc t = Inr pairs"
    and "Grouped e x n \<in> set pairs" and "Grouped e x' n' \<in> set pairs"
    and "e \<noteq> ''__proto__''"
  shows "x = x'"
proof -
  let ?imports = "find_nodes isImportDeclaration t"
  let ?ids = "unique (map name_of ?imports)"
  from assms(1) obtain rs m' where r: "resolveImports alloc ?ids [] ?imports = Inr (rs, m')"
    and g: "pairs = flatten rs"
    by (cases "resolveImports alloc ?ids [] ?imports") (auto simp: getDependencyPairs_def Let_def)
  from resolveImports_memo [OF r] assms(2,3,4) g
  have "map_of m' e = Some x" and "map_of m' e = Some x'" by blast+
  then show ?thesis by simp
qed

text \<open>
  C4. The dictionary of the resolver is a plain object. A parameter assigned under
  the key \<^verbatim>\<open>__proto__\<close> is not stored, so the module specifier \<^verbatim>\<open>__proto__\<close> is looked
  up in vain every time and every unrenamed named import of it gets the name the
  allocator returns for the exclusion list of that moment. For
  \<^verbatim>\<open>import {x} from '__proto__'; import {z} from 'm'; import {y} from '__proto__'\<close> the
  two imports of \<^verbatim>\<open>__proto__\<close> get the allocator's answers for \<^verbatim>\<open>[undefined]\<close> and for
  \<^verbatim>\<open>[undefined, p]\<close>, where \<open>p\<close> is the parameter of \<open>m\<close>: with an allocator that
  never returns an excluded name, two parameters for one module. With the sample
  allocator the factory has the parameters \<open>a\<close>, \<open>a\<close>, \<open>b\<close> and the body reads
  \<^verbatim>\<open>f(a.x, b.y)\<close>.
\<close>

theorem proto_module_params_differ:
  "getDependencyPairs alloc
     [ImportDeclaration [ImportSpecifier ''x'' ''x''] ''__proto__'',
      ImportDeclaration [ImportSpecifier ''z'' ''z''] ''m'',
      ImportDeclaration [ImportSpecifier ''y'' ''y''] ''__proto__'']
     = Inr [Grouped ''__proto__'' (alloc [None]) ''x'',
            Grouped ''m'' (alloc [None]) ''z'',
            Grouped ''__proto__'' (alloc [None, Some (alloc [None])]) ''y'']
   \<and> convert sample_identifier
     [ImportDeclaration [ImportSpecifier ''x'' ''x''] ''__proto__'',
      ImportDeclaration [ImportSpecifier ''z'' ''z''] ''m'',
      ImportDeclaration [ImportSpecifier ''y'' ''y''] ''__proto__'',
      ExpressionStatement (CallExpression (Identifier ''f'') [Identifier ''x'', Identifier ''y''])]
     = Inr [ExpressionStatement (CallExpression (Identifier ''define'')
          [ArrayExpression
             [Literal (StrLit ''__proto__''), Literal (StrLit ''m''),
              Literal (StrLit ''__proto__'')],
           FunctionExpression [Identifier ''a'', Identifier ''a'', Identifier ''b'']
             (BlockStatement
                [ExpressionStatement (Literal (StrLit ''use strict'')),
                 ExpressionStatement (CallExpression (Identifier ''f'')
                   [MemberExpression (Identifier ''a'') (Identifier ''x''),
                    MemberExpression (Identifier ''b'') (Identifier ''y'')])])])]"
  by (simp add: run)

text \<open>
  The error path of the resolver: once a parameter is stored under the key
  \<^verbatim>\<open>hasOwnProperty\<close>, the next unrenamed named import raises a TypeError, and so does
  the conversion.
\<close>

lemma resolver_raises:
  "getDependencyPairs alloc
     [ImportDeclaration [ImportSpecifier ''x'' ''x''] ''hasOwnProperty'',
      ImportDeclaration [ImportSpecifier ''y'' ''y''] ''m'']
     = Inl TypeError
   \<and> convert alloc
     [ImportDeclaration [ImportSpecifier ''x'' ''x''] ''hasOwnProperty'',
      ImportDeclaration [ImportSpecifier ''y'' ''y''] ''m'']
     = Inl TypeError"
  by (simp add: run)

text \<open>
  What holds of the exclusion list: it contains every parameter stored before in the
  same run. So, where the resolver returns, an allocator that never returns an
  excluded name gives the grouped imports of different modules, none of them
  \<^verbatim>\<open>__proto__\<close>, different parameters.
\<close>

lemma resolveSpecifier_distinct:
  assumes "resolveSpecifier alloc ids v m s = Inr (p, m')"
    and "\<And>xs. Some (alloc xs) \<notin> set xs"
    and "distinct (map fst m)" and "distinct (map snd m)"
  shows "distinct (map fst m') \<and> distinct (map snd m')"
proof (cases s)
  case (ImportSpecifier i l)
  have "alloc (unique ids @ map Some (object_values m)) \<notin> snd ` set m"
    using assms(2) [of "unique ids @ map Some (object_values m)"]
    by (auto simp: object_values_def)
  moreover have "v \<notin> fst ` set m" if "map_of m v = None"
    using that by (simp add: map_of_eq_None_iff)
  ultimately show ?thesis
    using assms ImportSpecifier
    by (auto simp: getLocalSpecifier_def hasOwnProperty_def setProperty_def Let_def
        split: if_splits option.splits)
qed (use assms in \<open>auto simp: getLocalSpecifier_def\<close>)

lemma resolveSpecifiers_distinct:
  assumes "resolveSpecifiers alloc ids v m ss = Inr (ps, m')"
    and "\<And>xs. Some (alloc xs) \<notin> set xs"
    and "distinct (map fst m)" and "distinct (map snd m)"
  shows "distinct (map fst m') \<and> distinct (map snd m')"
  using assms(1,3,4)
proof (induction ss arbitrary: m ps m')
  case Nil
  then show ?case by simp
next
  case (Cons s ss)
  from Cons.prems(1) obtain p m1 where s: "resolveSpecifier alloc ids v m s = Inr (p, m1)"
    by (cases "resolveSpecifier alloc ids v m s") (auto simp del: resolveSpecifier.simps)
  with Cons.prems(1) obtain qs m2 where ss: "resolveSpecifiers alloc ids v m1 ss = Inr (qs, m2)"
    by (cases "resolveSpecifiers alloc ids v m1 ss") (auto simp del: resolveSpecifier.simps)
  from Cons.prems(1) s ss have m': "m' = m2" by (simp del: resolveSpecifier.simps)
  from resolveSpecifier_distinct [OF s assms(2) Cons.prems(2,3)]
  have "distinct (map fst m1)" "distinct (map snd m1)" by simp_all
  from Cons.IH [OF ss this] show ?case unfolding m' .
qed

lemma resolveImports_distinct:
  assumes "resolveImports alloc ids m ns = Inr (rs, m')"
    and "\<And>xs. Some (alloc xs) \<notin> set xs"
    and "distinct (map fst m)" and "distinct (map snd m)"
  shows "distinct (map fst m') \<and> distinct (map snd m')"
  using assms(1,3,4)
proof (induction ns arbitrary: m rs m')
  case Nil
  then show ?case by simp
next
  case (Cons n ns)
  show ?case
  proof (cases n)
    case (ImportDeclaration specs src)
    show ?thesis
    proof (cases "specs = []")
      case True
      with Cons.prems(1) ImportDeclaration obtain qs m1
        where r: "resolveImports alloc ids m ns = Inr (qs, m1)"
        by (cases "resolveImports alloc ids m ns") auto
      with Cons.prems(1) ImportDeclaration True have "m' = m1" by simp
      with Cons.IH [OF r Cons.prems(2,3)] show ?thesis by simp
    next
      case False
      with Cons.prems(1) ImportDeclaration obtain ps m1
        where s: "resolveSpecifiers alloc ids src m specs = Inr (ps, m1)"
        by (cases "resolveSpecifiers alloc ids src m specs") auto
      with Cons.prems(1) ImportDeclaration False obtain qs m2
        where r: "resolveImports alloc ids m1 ns = Inr (qs, m2)"
        by (cases "resolveImports alloc ids m1 ns") auto
      from Cons.prems(1) ImportDeclaration False s r have m': "m' = m2" by simp
      from resolveSpecifiers_distinct [OF s assms(2) Cons.prems(2,3)]
      have "distinct (map fst m1)" "distinct (map snd m1)" by simp_all
      from Cons.IH [OF r this] show ?thesis unfolding m' .
    qed
  qed (use Cons in auto)
qed

lemma synthetic_params_distinct:
  assumes "\<And>xs. Some (alloc xs) \<notin> set xs"
    and "getDependencyPairs alloc t = Inr pairs"
    and "Grouped e p n \<in> set pairs" and "Grouped e' p' n' \<in> set pairs"
    and "e \<noteq> e'" and "e \<noteq> ''__proto__''" and "e' \<noteq> ''__proto__''"
  shows "p \<noteq> p'"
proof -
  let ?imports = "find_nodes isImportDeclaration t"
  let ?ids = "unique (map name_of ?imports)"
  from assms(2) obtain rs m' where r: "resolveImports alloc ?ids [] ?imports = Inr (rs, m')"
    and g: "pairs = flatten rs"
    by (cases "resolveImports alloc ?ids [] ?imports") (auto simp: getDependencyPairs_def Let_def)
  from resolveImports_memo [OF r] assms(3,4,6,7) g
  have a: "map_of m' e = Some p" and b: "map_of m' e' = Some p'" by blast+
  from resolveImports_distinct [OF r assms(1)]
  have d: "distinct (map snd m')" by simp
  from a b have "(e, p) \<in> set m'" "(e', p') \<in> set m'" by (auto dest: map_of_SomeD)
  with d assms(5) show ?thesis
    by (metis distinct_map inj_on_def prod.inject snd_conv)
qed

text \<open>
  C1. The resolver computes the exclusion list from \<^verbatim>\<open>item.name\<close> of the import
  declarations, which is \<^verbatim>\<open>undefined\<close> for each of them, so the list holds
  \<^verbatim>\<open>undefined\<close> and the parameters allocated before and no identifier of the imports.
  Whatever the allocator is, the name it returns for the list \<^verbatim>\<open>[undefined]\<close> is given
  to a grouped import also when a default import has that very name as its local
  name. With the sample allocator, \<^verbatim>\<open>import a from 'n'; import {x} from 'm'; f(a, x)\<close>
  becomes a factory with the two parameters \<open>a\<close> and \<open>a\<close>.
\<close>

theorem exclusions_miss_import_names:
  "getDependencyPairs alloc
     [ImportDeclaration [ImportDefaultSpecifier (alloc [None])] ''n'',
      ImportDeclaration [ImportSpecifier ''x'' ''x''] ''m'']
     = Inr [Bound ''n'' (alloc [None]), Grouped ''m'' (alloc [None]) ''x'']
   \<and> convert sample_identifier
     [ImportDeclaration [ImportDefaultSpecifier ''a''] ''n'',
      ImportDeclaration [ImportSpecifier ''x'' ''x''] ''m'',
      ExpressionStatement (CallExpression (Identifier ''f'') [Identifier ''a'', Identifier ''x''])]
     = Inr [ExpressionStatement (CallExpression (Identifier ''define'')
          [ArrayExpression [Literal (StrLit ''n''), Literal (StrLit ''m'')],
           FunctionExpression [Identifier ''a'', Identifier ''a'']
             (BlockStatement
                [ExpressionStatement (Literal (StrLit ''use strict'')),
                 ExpressionStatement (CallExpression (Identifier ''f'')
                   [Identifier ''a'',
                    MemberExpression (Identifier ''a'') (Identifier ''x'')])])])]"
  by (simp add: run)

section \<open>The assembler\<close>

text \<open>
  C2. The key by which the assembler deduplicates is the concatenation of element and
  param, not the pair of them. For \<^verbatim>\<open>import ab from './x'; import b from './xa'\<close> both
  pairs have the key \<^verbatim>\<open>./xab\<close>: the second pair is dropped, with its dependency
  \<^verbatim>\<open>./xa\<close> and its parameter \<open>b\<close>. In the same way a side-effect import and an import
  bound to the local name \<open>undefined\<close> of one module collapse, although their params
  differ.
\<close>

theorem dedupe_key_collision:
  "getDependencyPairs alloc
     [ImportDeclaration [ImportDefaultSpecifier ''ab''] ''./x'',
      ImportDeclaration [ImportDefaultSpecifier ''b''] ''./xa'']
     = Inr [Bound ''./x'' ''ab'', Bound ''./xa'' ''b'']
   \<and> dedupe [Bound ''./x'' ''ab'', Bound ''./xa'' ''b''] = [Bound ''./x'' ''ab'']
   \<and> convert alloc
     [ImportDeclaration [ImportDefaultSpecifier ''ab''] ''./x'',
      ImportDeclaration [ImportDefaultSpecifier ''b''] ''./xa'']
     = Inr [ExpressionStatement (CallExpression (Identifier ''define'')
          [ArrayExpression [Literal (StrLit ''./x'')],
           FunctionExpression [Identifier ''ab'']
             (BlockStatement [ExpressionStatement (Literal (StrLit ''use strict''))])])]
   \<and> dedupe [SideEffect ''a'', Bound ''a'' ''undefined''] = [SideEffect ''a'']"
  by (simp add: run)


section \<open>The identifier rewriter\<close>

lemma indexOf_find:
  "indexOf (map f xs) y = Some i \<Longrightarrow> i < length xs \<and> List.find (\<lambda>q. f q = y) xs = Some (xs ! i)"
proof (induction xs arbitrary: i)
  case Nil
  then show ?case by simp
next
  case (Cons x xs)
  then show ?case
    by (cases "f x = y") (auto split: option.splits)
qed

lemma indexOf_None: "indexOf xs y = None \<longleftrightarrow> y \<notin> set xs"
  by (induction xs) (auto split: option.splits)

lemma find_Some_holds: "List.find P xs = Some y \<Longrightarrow> P y \<and> y \<in> set xs"
  by (induction xs) (auto split: if_splits)

lemma find_filter:
  "(\<And>q. Q q \<Longrightarrow> P q) \<Longrightarrow> List.find Q (filter P xs) = List.find Q xs"
  by (induction xs) auto

lemma normalizeNode_unfold:
  "normalizeNode pairs n
   = normalizeVisitor (filter (\<lambda>pair. truthy (pair_name pair)) pairs)
       (map_children (normalizeNode pairs) n)"
  unfolding normalizeNode_def Let_def
  by (subst replace_leave.simps) (rule refl)

text \<open>
  C3. The rewriter runs over every subtree of the program. An identifier whose name
  is the name of a grouped pair becomes the member expression whose object is the
  identifier of that pair's param and whose property is the identifier of the name,
  both taken from the first pair with the name; the two identifiers of the
  replacement are left as they are, whatever their names. An identifier whose name no
  pair carries stays. Every other node is rebuilt from its rewritten children, so the
  visitor acts on the leaves only and each once.
\<close>

theorem rewrite_grouped_identifiers:
  "normalizePairs pairs t = map (normalizeNode pairs) t
   \<and> (x \<noteq> [] \<and> List.find (\<lambda>q. pair_name q = Some x) pairs = Some (Grouped e p n) \<longrightarrow>
        normalizeNode pairs (Identifier x) = MemberExpression (Identifier p) (Identifier x))
   \<and> ((\<forall>q \<in> set pairs. pair_name q \<noteq> Some x) \<longrightarrow>
        normalizeNode pairs (Identifier x) = Identifier x)
   \<and> ((\<forall>y. m \<noteq> Identifier y) \<longrightarrow>
        normalizeNode pairs m = map_children (normalizeNode pairs) m)"
proof -
  let ?nodes = "filter (\<lambda>pair. truthy (pair_name pair)) pairs"
  have id: "normalizeNode pairs (Identifier x) = normalizeVisitor ?nodes (Identifier x)"
    by (subst normalizeNode_unfold) (simp add: map_children_def)
  have a: "normalizeNode pairs (Identifier x) = MemberExpression (Identifier p) (Identifier x)"
    if x: "x \<noteq> []" and f: "List.find (\<lambda>q. pair_name q = Some x) pairs = Some (Grouped e p n)"
  proof -
    from find_Some_holds [OF f] have n: "n = x" by simp
    have "List.find (\<lambda>q. pair_name q = Some x) ?nodes = List.find (\<lambda>q. pair_name q = Some x) pairs"
      using x by (intro find_filter) simp
    with f have f': "List.find (\<lambda>q. pair_name q = Some x) ?nodes = Some (Grouped e p n)"
      by (simp only:)
    from find_Some_holds [OF f'] n have "Some x \<in> pair_name ` set ?nodes"
      by (intro image_eqI [where x = "Grouped e p n"]) simp_all
    then have "indexOf (map pair_name ?nodes) (Some x) \<noteq> None"
      by (simp only: indexOf_None set_map not_not)
    then obtain i where i: "indexOf (map pair_name ?nodes) (Some x) = Some i"
      by blast
    from indexOf_find [OF i] f' have "?nodes ! i = Grouped e p n" by simp
    with i n show ?thesis by (simp add: id)
  qed
  have b: "normalizeNode pairs (Identifier x) = Identifier x"
    if "\<forall>q \<in> set pairs. pair_name q \<noteq> Some x"
  proof -
    from that have "Some x \<notin> set (map pair_name ?nodes)" by auto
    then have "indexOf (map pair_name ?nodes) (Some x) = None" by (simp add: indexOf_None)
    then show ?thesis by (simp add: id)
  qed
  have c: "normalizeNode pairs m = map_children (normalizeNode pairs) m"
    if "\<forall>y. m \<noteq> Identifier y"
  proof -
    from that have "\<forall>y. map_children (normalizeNode pairs) m \<noteq> Identifier y"
      by (cases m) (simp_all add: map_children_def)
    then have "normalizeVisitor ?nodes (map_children (normalizeNode pairs) m)
        = map_children (normalizeNode pairs) m"
      by (cases "map_children (normalizeNode pairs) m") simp_all
    then show ?thesis by (subst normalizeNode_unfold) simp
  qed
  show ?thesis
  proof (intro conjI impI)
    show "normalizePairs pairs t = map (normalizeNode pairs) t"
      by (simp add: normalizePairs_def)
  next
    assume "x \<noteq> [] \<and> List.find (\<lambda>q. pair_name q = Some x) pairs = Some (Grouped e p n)"
    then show "normalizeNode pairs (Identifier x) = MemberExpression (Identifier p) (Identifier x)"
      using a by blast
  next
    assume "\<forall>q \<in> set pairs. pair_name q \<noteq> Some x"
    then show "normalizeNode pairs (Identifier x) = Identifier x" by (rule b)
  next
    assume "\<forall>y. m \<noteq> Identifier y"
    then show "normalizeNode pairs m = map_children (normalizeNode pairs) m" by (rule c)
  qed
qed

theorem rewrite_grouped_identifiers_witness:
  "''x'' \<noteq> []
   \<and> List.find (\<lambda>q. pair_name q = Some ''x'')
        [Bound ''c'' ''d'', Grouped ''a'' ''t'' ''x'', Grouped ''b'' ''u'' ''t'']
      = Some (Grouped ''a'' ''t'' ''x'')
   \<and> normalizeNode [Bound ''c'' ''d'', Grouped ''a'' ''t'' ''x'', Grouped ''b'' ''u'' ''t'']
        (Identifier ''x'')
      = MemberExpression (Identifier ''t'') (Identifier ''x'')
   \<and> normalizePairs [Bound ''c'' ''d'', Grouped ''a'' ''t'' ''x'', Grouped ''b'' ''u'' ''t'']
        [ExpressionStatement (CallExpression (Identifier ''f'')
           [Identifier ''x'', Identifier ''t'', Identifier ''d''])]
      = [ExpressionStatement (CallExpression (Identifier ''f'')
           [MemberExpression (Identifier ''t'') (Identifier ''x''),
            MemberExpression (Identifier ''u'') (Identifier ''t''),
            Identifier ''d''])]"
proof -
  let ?pairs = "[Bound ''c'' ''d'', Grouped ''a'' ''t'' ''x'', Grouped ''b'' ''u'' ''t'']"
  have h1: "''x'' \<noteq> []" by simp
  have h2: "List.find (\<lambda>q. pair_name q = Some ''x'') ?pairs = Some (Grouped ''a'' ''t'' ''x'')"
    by simp
  from rewrite_grouped_identifiers [of ?pairs _ "''x''" "''a''" "''t''" "''x''"] h1 h2
  have a: "normalizeNode ?pairs (Identifier ''x'')
      = MemberExpression (Identifier ''t'') (Identifier ''x'')"
    by blast
  have b: "normalizePairs ?pairs
        [ExpressionStatement (CallExpression (Identifier ''f'')
           [Identifier ''x'', Identifier ''t'', Identifier ''d''])]
      = [ExpressionStatement (CallExpression (Identifier ''f'')
           [MemberExpression (Identifier ''t'') (Identifier ''x''),
            MemberExpression (Identifier ''u'') (Identifier ''t''),
            Identifier ''d''])]"
    by (simp add: run)
  from h1 h2 a b show ?thesis by blast
qed


section \<open>Idempotence\<close>

lemma kind_map_slots: "Q \<in> module_kinds \<Longrightarrow> Q (map_slots g h n) = Q n"
  by (auto simp: module_kinds_def)

lemma kind_map_children: "Q \<in> module_kinds \<Longrightarrow> Q (map_children f n) = Q n"
  by (simp add: map_children_def kind_map_slots)

lemma kind_leaves:
  assumes "Q \<in> module_kinds"
  shows "\<not> Q Null" "\<not> Q (Identifier x)" "\<not> Q (Literal v)" "\<not> Q (MemberExpression a b)"
    "\<not> Q (Property k w sh)" "\<not> Q (ReturnStatement r)" "\<not> Q (ObjectExpression ps)"
    "\<not> Q (ExpressionStatement e)" "\<not> Q (CallExpression c as)" "\<not> Q (ArrayExpression es)"
    "\<not> Q (FunctionExpression fs b)" "\<not> Q (BlockStatement ss)"
  using assms by (auto simp: module_kinds_def)

lemma has_child: "c \<in> set (children n) \<Longrightarrow> has Q [c] \<Longrightarrow> has Q (children n)"
  by (subst has_iff) blast

lemma has_child_node: "c \<in> set (children n) \<Longrightarrow> has Q [c] \<Longrightarrow> has Q [n]"
  by (simp add: has_single [of Q n] has_child)

lemma children_remove_node:
  assumes "c \<in> set (children (remove_node P n))"
  shows "c = Null \<or> (\<exists>d \<in> set (children n). \<not> P d \<and> c = remove_node P d)"
proof -
  from assms have "c \<in> set (children (map_slots (\<lambda>c. if P c then Null else remove_node P c)
       (\<lambda>cs. map (remove_node P) (filter (\<lambda>c. \<not> P c) cs)) n))"
    by (subst (asm) remove_node.simps)
  from children_map_slots_cases [OF this]
  consider d where "d \<in> set (children n)" "c = (if P d then Null else remove_node P d)"
    | cs where "set cs \<subseteq> set (children n)"
        "c \<in> set (map (remove_node P) (filter (\<lambda>c. \<not> P c) cs))"
    by blast
  then show ?thesis
  proof cases
    case 1
    then show ?thesis by (cases "P d") auto
  next
    case 2
    then obtain d where "d \<in> set cs" "\<not> P d" "c = remove_node P d" by auto
    with 2(1) show ?thesis by blast
  qed
qed

lemma kind_remove_node: "Q \<in> module_kinds \<Longrightarrow> Q (remove_node P n) = Q n"
  by (subst remove_node.simps) (rule kind_map_slots)

lemma has_remove_node:
  assumes "Q \<in> module_kinds"
  shows "has Q [remove_node P n] \<Longrightarrow> has Q [n]"
proof (induction n rule: node_children_induct)
  case (1 n)
  from "1.prems" have "Q (remove_node P n) \<or> has Q (children (remove_node P n))"
    by (simp add: has_single)
  then show ?case
  proof
    assume "Q (remove_node P n)"
    then show ?thesis by (simp add: kind_remove_node [OF assms] has_single [of Q n])
  next
    assume "has Q (children (remove_node P n))"
    then obtain c where c: "c \<in> set (children (remove_node P n))" and hc: "has Q [c]"
      by (subst (asm) has_iff) blast
    from hc have "c \<noteq> Null" using kind_leaves(1) [OF assms] by (auto simp: has_single)
    with children_remove_node [OF c] obtain d where d: "d \<in> set (children n)"
      and "c = remove_node P d" by blast
    with hc "1.IH" have "has Q [d]" by simp
    with d show ?thesis by (rule has_child_node)
  qed
qed

lemma has_children_remove_node:
  assumes "Q \<in> module_kinds" and "has Q (children (remove_node P n))"
  shows "has Q (children n)"
proof -
  from assms(2) obtain c where c: "c \<in> set (children (remove_node P n))" and hc: "has Q [c]"
    by (subst (asm) has_iff) blast
  from hc have "c \<noteq> Null" using kind_leaves(1) [OF assms(1)] by (auto simp: has_single)
  with children_remove_node [OF c] obtain d where d: "d \<in> set (children n)"
    and "c = remove_node P d" by blast
  with hc have "has Q [d]" using has_remove_node [OF assms(1)] by simp
  with d show ?thesis by (rule has_child)
qed

lemma has_remove_nodes:
  assumes "Q \<in> module_kinds" and "has Q (remove_nodes P t)"
  shows "has Q t"
proof -
  from assms(2) obtain s where "s \<in> set t" "has Q [remove_node P s]"
    unfolding remove_nodes_def by (subst (asm) has_iff) auto
  with has_remove_node [OF assms(1)] show ?thesis by (subst has_iff) blast
qed

lemma none_after_remove_node:
  assumes "P \<in> module_kinds"
  shows "\<not> P n \<Longrightarrow> \<not> has P [remove_node P n]"
proof (induction n rule: node_children_induct)
  case (1 n)
  have "\<not> has P [c]" if "c \<in> set (children (remove_node P n))" for c
  proof -
    from children_remove_node [OF that]
    consider "c = Null" | d where "d \<in> set (children n)" "\<not> P d" "c = remove_node P d"
      by blast
    then show ?thesis
    proof cases
      case 1
      then show ?thesis using kind_leaves(1) [OF assms] by (simp add: has_single)
    next
      case 2
      with "1.IH" show ?thesis by simp
    qed
  qed
  then have "\<not> has P (children (remove_node P n))" by (subst has_iff) blast
  with "1.prems" show ?case
    by (simp add: has_single [of P "remove_node P n"] kind_remove_node [OF assms])
qed

lemma none_after_remove_nodes:
  "P \<in> module_kinds \<Longrightarrow> \<not> has P (remove_nodes P t)"
  unfolding remove_nodes_def by (subst has_iff) (auto simp: none_after_remove_node)

subsection \<open>The rewriter creates no import or export\<close>

lemma has_normalizeVisitor:
  assumes "Q \<in> module_kinds"
  shows "has Q [normalizeVisitor nodes m] = has Q [m]"
    and "has Q (children (normalizeVisitor nodes m)) = has Q (children m)"
proof -
  have "has Q [normalizeVisitor nodes m] = has Q [m]
      \<and> has Q (children (normalizeVisitor nodes m)) = has Q (children m)"
  proof (cases m)
    case (Identifier x)
    show ?thesis
    proof (cases "indexOf (map pair_name nodes) (Some x)")
      case None
      with Identifier show ?thesis by simp
    next
      case (Some i)
      with Identifier show ?thesis
        using kind_leaves [OF assms]
        by (cases "nodes ! i") (simp_all add: has_Cons_unfold)
    qed
  qed simp_all
  then show "has Q [normalizeVisitor nodes m] = has Q [m]"
    and "has Q (children (normalizeVisitor nodes m)) = has Q (children m)"
    by simp_all
qed

lemma has_normalizeNode:
  assumes "Q \<in> module_kinds"
  shows "has Q [normalizeNode pairs n] = has Q [n]"
proof (induction n rule: node_children_induct)
  case (1 n)
  have "has Q (map (normalizeNode pairs) (children n)) = has Q (children n)"
    using 1 by (subst (1 2) has_iff) simp
  then have "has Q [map_children (normalizeNode pairs) n] = has Q [n]"
    by (simp add: has_single kind_map_children [OF assms])
  then show ?case
    by (subst normalizeNode_unfold) (simp add: has_normalizeVisitor(1) [OF assms])
qed

lemma has_children_normalizeNode:
  assumes "Q \<in> module_kinds"
  shows "has Q (children (normalizeNode pairs n)) = has Q (children n)"
proof -
  have "has Q (map (normalizeNode pairs) (children n)) = has Q (children n)"
    by (subst (1 2) has_iff) (simp add: has_normalizeNode [OF assms])
  then show ?thesis
    by (subst normalizeNode_unfold) (simp add: has_normalizeVisitor(2) [OF assms])
qed

lemma has_normalizePairs:
  "Q \<in> module_kinds \<Longrightarrow> has Q (normalizePairs pairs t) = has Q t"
  unfolding normalizePairs_def by (subst (1 2) has_iff) (simp add: has_normalizeNode)

lemma named_exports_at_top_stripped:
  assumes "named_exports_at_top t"
  shows "named_exports_at_top (normalizePairs pairs (remove_nodes isImportDeclaration t))"
proof -
  have k: "isExportNamedDeclaration \<in> module_kinds" by (simp add: module_kinds_def)
  have "\<not> has isExportNamedDeclaration
          (children (normalizeNode pairs (remove_node isImportDeclaration s)))"
    if "s \<in> set t" for s
  proof -
    from assms that have "\<not> has isExportNamedDeclaration (children s)"
      by (simp add: named_exports_at_top_def list_all_iff)
    with has_children_remove_node [OF k] show ?thesis
      by (auto simp: has_children_normalizeNode [OF k])
  qed
  then show ?thesis
    by (auto simp: named_exports_at_top_def list_all_iff normalizePairs_def remove_nodes_def)
qed

subsection \<open>The export passes create no import or export\<close>

lemma has_import_map_defaultToReturn:
  "has isImportDeclaration (map defaultToReturn t) = has isImportDeclaration t"
  by (subst (1 2) has_iff) (simp add: has_import_defaultToReturn)

lemma no_default_map_defaultToReturn:
  "\<not> has isExportDefaultDeclaration (map defaultToReturn t)"
  by (subst has_iff) (simp add: no_default_defaultToReturn)

lemma has_Null: "Q \<in> module_kinds \<Longrightarrow> \<not> has Q [Null]"
  by (simp add: has_single kind_leaves(1))

lemma has_local_of:
  assumes "Q \<in> module_kinds" and "has Q [local_of x]"
  shows "has Q (children x)"
proof (cases x)
  case (ExportSpecifier l e)
  with assms(2) show ?thesis by (simp add: has_Cons_unfold)
qed (use assms(2) has_Null [OF assms(1)] in simp_all)

lemma has_id_of:
  assumes "Q \<in> module_kinds" and "has Q [id_of x]"
  shows "has Q (children x)"
proof (cases x)
  case (VariableDeclarator i e)
  with assms(2) show ?thesis by (auto simp: has_Cons_unfold)
next
  case (FunctionDeclaration i ps b)
  with assms(2) show ?thesis by (auto simp: has_Cons_unfold)
next
  case (ClassDeclaration i sc b)
  with assms(2) show ?thesis by (auto simp: has_Cons_unfold)
qed (use assms(2) has_Null [OF assms(1)] in simp_all)

lemma has_property:
  assumes "Q \<in> module_kinds"
  shows "has Q [Property k k sh] = has Q [k]"
  using kind_leaves(5) [OF assms] by (auto simp: has_Cons_unfold)

lemma has_map: "has Q (map f t) = (\<exists>s \<in> set t. has Q [f s])"
  by (induction t) (simp_all add: has_def)

lemma has_concat_map: "has Q (concat (map f t)) = (\<exists>s \<in> set t. has Q (f s))"
  by (induction t) simp_all

lemma has_spec_properties:
  assumes "Q \<in> module_kinds" and "has Q (spec_properties s)"
  shows "has Q (children s)"
proof (cases s)
  case (ExportNamedDeclaration d specs src)
  show ?thesis
  proof (cases "d = Null")
    case True
    with assms(2) ExportNamedDeclaration
    have "has Q (map (\<lambda>s. Property (local_of s) (local_of s) (Some True)) specs)" by simp
    then obtain x where x: "x \<in> set specs"
      and "has Q [Property (local_of x) (local_of x) (Some True)]"
      unfolding has_map by blast
    then have "has Q [local_of x]" by (simp only: has_property [OF assms(1)])
    then have "has Q (children x)" by (rule has_local_of [OF assms(1)])
    then have "has Q [x]" by (simp add: has_single)
    moreover from x ExportNamedDeclaration have "x \<in> set (children s)" by simp
    ultimately show ?thesis by (rule has_child [rotated])
  next
    case False
    have "has Q [d]"
    proof (cases "\<exists>k ds. d = VariableDeclaration k ds")
      case True
      then obtain k ds where d: "d = VariableDeclaration k ds" by blast
      with assms(2) ExportNamedDeclaration
      have "has Q (map (\<lambda>x. Property (id_of x) (id_of x) None) ds)" by simp
      then obtain x where x: "x \<in> set ds"
        and "has Q [Property (id_of x) (id_of x) None]"
        unfolding has_map by blast
      then have "has Q [id_of x]" by (simp only: has_property [OF assms(1)])
      then have "has Q (children x)" by (rule has_id_of [OF assms(1)])
      then have "has Q [x]" by (simp add: has_single)
      moreover from x d have "x \<in> set (children d)" by simp
      ultimately show ?thesis by (rule has_child_node [rotated])
    next
      case nv: False
      with assms(2) ExportNamedDeclaration False
      have "has Q [Property (id_of d) (id_of d) None]"
        by (cases d) simp_all
      then have "has Q [id_of d]" by (simp only: has_property [OF assms(1)])
      then have "has Q (children d)" by (rule has_id_of [OF assms(1)])
      then show ?thesis by (simp add: has_single)
    qed
    moreover from ExportNamedDeclaration have "d \<in> set (children s)" by simp
    ultimately show ?thesis by (rule has_child [rotated])
  qed
qed (use assms in simp_all)

lemma has_spec_statement:
  assumes "has Q (spec_statement s)"
  shows "has Q [s]"
proof (cases s)
  case (ExportNamedDeclaration d specs src)
  have "has Q [d]"
  proof (cases "d = Null")
    case True
    with assms ExportNamedDeclaration show ?thesis by simp
  next
    case False
    with assms ExportNamedDeclaration show ?thesis by simp
  qed
  moreover from ExportNamedDeclaration have "d \<in> set (children s)" by simp
  ultimately show ?thesis by (rule has_child_node [rotated])
qed (use assms in simp_all)

lemma has_named_output:
  assumes "Q \<in> module_kinds"
    and "has Q (concat (map spec_statement t)
           @ [ReturnStatement (ObjectExpression (concat (map spec_properties t)))])"
  shows "has Q t \<and> (\<exists>s \<in> set t. has Q (spec_statement s) \<or> has Q (children s))"
proof -
  from assms(2) have "has Q (concat (map spec_statement t))
      \<or> has Q (concat (map spec_properties t))"
    using kind_leaves [OF assms(1)] by (simp add: has_Cons_unfold)
  then have "\<exists>s \<in> set t. has Q (spec_statement s) \<or> has Q (spec_properties s)"
    unfolding has_concat_map by blast
  then obtain s where s: "s \<in> set t" and "has Q (spec_statement s) \<or> has Q (spec_properties s)"
    by blast
  then have d: "has Q (spec_statement s) \<or> has Q (children s)"
    using has_spec_properties [OF assms(1)] by blast
  then have "has Q [s]"
  proof
    assume "has Q (spec_statement s)"
    then show ?thesis by (rule has_spec_statement)
  next
    assume "has Q (children s)"
    then show ?thesis by (simp add: has_single [of Q s])
  qed
  with s d show ?thesis by (subst has_iff) blast
qed

lemma no_named_in_output:
  assumes "named_exports_at_top t"
  shows "\<not> has isExportNamedDeclaration (concat (map spec_statement t)
           @ [ReturnStatement (ObjectExpression (concat (map spec_properties t)))])"
proof
  assume h: "has isExportNamedDeclaration (concat (map spec_statement t)
           @ [ReturnStatement (ObjectExpression (concat (map spec_properties t)))])"
  have k: "isExportNamedDeclaration \<in> module_kinds" by (simp add: module_kinds_def)
  from has_named_output [OF k h] obtain s where s: "s \<in> set t"
    and d: "has isExportNamedDeclaration (spec_statement s)
          \<or> has isExportNamedDeclaration (children s)"
    by blast
  from assms s have c: "\<not> has isExportNamedDeclaration (children s)"
    by (simp add: named_exports_at_top_def list_all_iff)
  with d no_named_spec_statement [OF c] show False by simp
qed


subsection \<open>The loader call adds no import or export\<close>

lemma has_leaves:
  assumes "Q \<in> module_kinds"
  shows "\<not> has Q (map (\<lambda>x. Literal (StrLit x)) xs)" and "\<not> has Q (map Identifier ys)"
  using kind_leaves [OF assms] by (simp_all add: has_map has_single)

lemma has_prependUseStrictLiteral:
  "Q \<in> module_kinds \<Longrightarrow> has Q (prependUseStrictLiteral t) = has Q t"
  using kind_leaves [of Q]
  by (simp add: prependUseStrictLiteral_def prepend_def useStrictLiteral_def has_Cons_unfold)

lemma has_wrapWithDefineWithArrayExpression:
  assumes "Q \<in> module_kinds"
  shows "has Q (wrapWithDefineWithArrayExpression pairs t) = has Q t"
proof -
  have "\<not> has Q (dependency_elements (dedupe pairs))"
    using kind_leaves [OF assms] by (simp add: dependency_elements_def has_map has_single)
  moreover have "\<not> has Q (factory_params (dedupe pairs))"
    unfolding factory_params_def by (rule has_leaves [OF assms])
  ultimately show ?thesis
    using kind_leaves [OF assms]
    by (simp add: wrapWithDefineWithArrayExpression_def Let_def wrap_def getDefine_def
        getArrayExpression_def getFunctionExpression_def has_Cons_unfold)
qed

lemma has_define_factory:
  assumes "Q \<in> module_kinds"
  shows "has Q [ExpressionStatement (CallExpression (Identifier ''define'')
           [FunctionExpression [] (BlockStatement (useStrictLiteral # body))])] = has Q body"
  using kind_leaves [OF assms] by (simp add: has_Cons_unfold useStrictLiteral_def)

text \<open>
  C8, as amended. For a tree whose ExportNamedDeclarations are top-level statements
  and that does not contain both an ExportDefaultDeclaration and an
  ExportNamedDeclaration, the output of the conversion contains no ImportDeclaration,
  no ExportDefaultDeclaration and no ExportNamedDeclaration node, and converting it
  again leaves it unchanged. (The output is the tree \<open>u\<close> the conversion returns; a
  conversion that ends in the TypeError of the resolver has none.)
\<close>

theorem convert_idempotent:
  assumes wf: "named_exports_at_top t"
    and nb: "\<not> (has isExportDefaultDeclaration t \<and> has isExportNamedDeclaration t)"
    and out: "convert alloc t = Inr u"
  shows "\<not> has isImportDeclaration u
       \<and> \<not> has isExportDefaultDeclaration u
       \<and> \<not> has isExportNamedDeclaration u
       \<and> convert alloc u = Inr u"
proof -
  have kI: "isImportDeclaration \<in> module_kinds"
    and kD: "isExportDefaultDeclaration \<in> module_kinds"
    and kN: "isExportNamedDeclaration \<in> module_kinds"
    by (simp_all add: module_kinds_def)
  have clean: "\<not> has isImportDeclaration u
       \<and> \<not> has isExportDefaultDeclaration u
       \<and> \<not> has isExportNamedDeclaration u"
  proof (cases "has isImportDeclaration t")
    case True
    with out obtain pairs where gp: "getDependencyPairs alloc t = Inr pairs"
      by (cases "getDependencyPairs alloc t")
        (auto simp: convert_def convertCodeWithImportDeclarations_def)
    define t2 where "t2 = normalizePairs pairs (remove_nodes isImportDeclaration t)"
    define t3 where "t3 =
      (if has isExportDefaultDeclaration t2 then convertExportDefaultDeclarationToReturn t2
       else if has isExportNamedDeclaration t2 then convertExportNamedDeclarations t2
       else t2)"
    have "convert alloc t
        = Inr (wrapWithDefineWithArrayExpression pairs (prependUseStrictLiteral t3))"
      using True gp
      by (simp add: convert_def convertCodeWithImportDeclarations_def Let_def t2_def t3_def)
    with out have c: "u = wrapWithDefineWithArrayExpression pairs (prependUseStrictLiteral t3)"
      by simp
    have i2: "\<not> has isImportDeclaration t2"
      unfolding t2_def by (simp add: has_normalizePairs [OF kI] none_after_remove_nodes [OF kI])
    have d2: "has isExportDefaultDeclaration t" if "has isExportDefaultDeclaration t2"
      using that has_remove_nodes [OF kD] unfolding t2_def
      by (simp add: has_normalizePairs [OF kD])
    have n2: "has isExportNamedDeclaration t" if "has isExportNamedDeclaration t2"
      using that has_remove_nodes [OF kN] unfolding t2_def
      by (simp add: has_normalizePairs [OF kN])
    have wf2: "named_exports_at_top t2"
      unfolding t2_def using wf by (rule named_exports_at_top_stripped)
    have "\<not> has isImportDeclaration t3 \<and> \<not> has isExportDefaultDeclaration t3
        \<and> \<not> has isExportNamedDeclaration t3"
    proof (cases "has isExportDefaultDeclaration t2")
      case True
      then have e: "t3 = map defaultToReturn t2"
        by (simp add: t3_def convertExportDefaultDeclarationToReturn_def)
      from True d2 nb have "\<not> has isExportNamedDeclaration t" by blast
      with n2 have "\<not> has isExportNamedDeclaration t2" by blast
      with i2 show ?thesis
        unfolding e
        by (simp add: has_map_defaultToReturn has_import_map_defaultToReturn
            no_default_map_defaultToReturn)
    next
      case noD: False
      show ?thesis
      proof (cases "has isExportNamedDeclaration t2")
        case True
        with noD have e: "t3 = concat (map spec_statement t2)
            @ [ReturnStatement (ObjectExpression (concat (map spec_properties t2)))]"
          by (simp add: t3_def convertExportNamedDeclarations_top [OF wf2])
        have "\<not> has isExportNamedDeclaration t3"
          unfolding e by (rule no_named_in_output [OF wf2])
        moreover have "\<not> has isExportDefaultDeclaration t3"
          using has_named_output [OF kD, of t2] noD unfolding e by blast
        moreover have "\<not> has isImportDeclaration t3"
          using has_named_output [OF kI, of t2] i2 unfolding e by blast
        ultimately show ?thesis by blast
      next
        case False
        with noD have "t3 = t2" by (simp add: t3_def)
        with noD False i2 show ?thesis by simp
      qed
    qed
    then show ?thesis
      unfolding c
      by (simp add: has_wrapWithDefineWithArrayExpression [OF kI]
          has_wrapWithDefineWithArrayExpression [OF kD]
          has_wrapWithDefineWithArrayExpression [OF kN]
          has_prependUseStrictLiteral [OF kI] has_prependUseStrictLiteral [OF kD]
          has_prependUseStrictLiteral [OF kN])
  next
    case noI: False
    show ?thesis
    proof (cases "has isExportDefaultDeclaration t")
      case True
      with noI have "convert alloc t = Inr
          [ExpressionStatement (CallExpression (Identifier ''define'')
             [FunctionExpression [] (BlockStatement (useStrictLiteral # map defaultToReturn t))])]"
        by (simp add: convert_def convertExportDefaultDeclarationToDefine_eq)
      with out have c: "u =
          [ExpressionStatement (CallExpression (Identifier ''define'')
             [FunctionExpression [] (BlockStatement (useStrictLiteral # map defaultToReturn t))])]"
        by simp
      from True nb have "\<not> has isExportNamedDeclaration t" by blast
      with noI show ?thesis
        unfolding c
        by (simp add: has_define_factory [OF kI] has_define_factory [OF kD]
            has_define_factory [OF kN] has_map_defaultToReturn has_import_map_defaultToReturn
            no_default_map_defaultToReturn)
    next
      case noD: False
      show ?thesis
      proof (cases "has isExportNamedDeclaration t")
        case True
        with noI noD have "convert alloc t = Inr
            [ExpressionStatement (CallExpression (Identifier ''define'')
               [FunctionExpression []
                  (BlockStatement
                     (useStrictLiteral # concat (map spec_statement t)
                      @ [ReturnStatement (ObjectExpression (concat (map spec_properties t)))]))])]"
          by (simp add: convert_def convertExportNamedDeclarationToDefine_top [OF wf])
        with out have c: "u =
            [ExpressionStatement (CallExpression (Identifier ''define'')
               [FunctionExpression []
                  (BlockStatement
                     (useStrictLiteral # concat (map spec_statement t)
                      @ [ReturnStatement (ObjectExpression (concat (map spec_properties t)))]))])]"
          by simp
        have "\<not> has isExportNamedDeclaration (concat (map spec_statement t)
                @ [ReturnStatement (ObjectExpression (concat (map spec_properties t)))])"
          by (rule no_named_in_output [OF wf])
        moreover have "\<not> has isExportDefaultDeclaration (concat (map spec_statement t)
                @ [ReturnStatement (ObjectExpression (concat (map spec_properties t)))])"
          using has_named_output [OF kD, of t] noD by blast
        moreover have "\<not> has isImportDeclaration (concat (map spec_statement t)
                @ [ReturnStatement (ObjectExpression (concat (map spec_properties t)))])"
          using has_named_output [OF kI, of t] noI by blast
        ultimately show ?thesis
          unfolding c
          by (simp only: has_define_factory [OF kI] has_define_factory [OF kD]
              has_define_factory [OF kN] simp_thms)
      next
        case False
        with noI noD out show ?thesis by (auto simp: convert_def)
      qed
    qed
  qed
  then show ?thesis by (simp add: convert_def)
qed

text \<open>
  The claim C8 as stated fails: for \<^verbatim>\<open>export default 1; export const a = 1\<close> the
  first conversion leaves the ExportNamedDeclaration in the factory body, and the
  second conversion converts it.
\<close>

theorem convert_idempotent_counterexample:
  "convert sample_identifier
     [ExportDefaultDeclaration (Literal (NumLit 1)),
      ExportNamedDeclaration
        (VariableDeclaration ''const''
           [VariableDeclarator (Identifier ''a'') (Literal (NumLit 1))]) [] None]
     = Inr [ExpressionStatement (CallExpression (Identifier ''define'')
          [FunctionExpression []
             (BlockStatement
                [ExpressionStatement (Literal (StrLit ''use strict'')),
                 ReturnStatement (Literal (NumLit 1)),
                 ExportNamedDeclaration
                   (VariableDeclaration ''const''
                      [VariableDeclarator (Identifier ''a'') (Literal (NumLit 1))]) [] None])])]
   \<and> has isExportNamedDeclaration
       [ExpressionStatement (CallExpression (Identifier ''define'')
          [FunctionExpression []
             (BlockStatement
                [ExpressionStatement (Literal (StrLit ''use strict'')),
                 ReturnStatement (Literal (NumLit 1)),
                 ExportNamedDeclaration
                   (VariableDeclaration ''const''
                      [VariableDeclarator (Identifier ''a'') (Literal (NumLit 1))]) [] None])])]
   \<and> convert sample_identifier
       [ExpressionStatement (CallExpression (Identifier ''define'')
          [FunctionExpression []
             (BlockStatement
                [ExpressionStatement (Literal (StrLit ''use strict'')),
                 ReturnStatement (Literal (NumLit 1)),
                 ExportNamedDeclaration
                   (VariableDeclaration ''const''
                      [VariableDeclarator (Identifier ''a'') (Literal (NumLit 1))]) [] None])])]
     = Inr [ExpressionStatement (CallExpression (Identifier ''define'')
          [FunctionExpression []
             (BlockStatement
                [ExpressionStatement (Literal (StrLit ''use strict'')),
                 ExpressionStatement (CallExpression (Identifier ''define'')
                   [FunctionExpression []
                      (BlockStatement
                         [ExpressionStatement (Literal (StrLit ''use strict'')),
                          ReturnStatement (Literal (NumLit 1)),
                          VariableDeclaration ''const''
                            [VariableDeclarator (Identifier ''a'') (Literal (NumLit 1))]])]),
                 ReturnStatement
                   (ObjectExpression
                      [Property (Identifier ''a'') (Identifier ''a'') None])])])]"
  by (simp add: run)

theorem convert_idempotent_witness:
  "named_exports_at_top
     [ImportDeclaration [ImportSpecifier ''x'' ''x''] ''m'',
      ExportNamedDeclaration
        (VariableDeclaration ''const''
           [VariableDeclarator (Identifier ''b'') (Identifier ''x'')]) [] None]
   \<and> \<not> has isExportDefaultDeclaration
     [ImportDeclaration [ImportSpecifier ''x'' ''x''] ''m'',
      ExportNamedDeclaration
        (VariableDeclaration ''const''
           [VariableDeclarator (Identifier ''b'') (Identifier ''x'')]) [] None]
   \<and> convert sample_identifier
         [ImportDeclaration [ImportSpecifier ''x'' ''x''] ''m'',
          ExportNamedDeclaration
            (VariableDeclaration ''const''
               [VariableDeclarator (Identifier ''b'') (Identifier ''x'')]) [] None]
     = Inr [ExpressionStatement (CallExpression (Identifier ''define'')
          [ArrayExpression [Literal (StrLit ''m'')],
           FunctionExpression [Identifier ''a'']
             (BlockStatement
                [ExpressionStatement (Literal (StrLit ''use strict'')),
                 VariableDeclaration ''const''
                   [VariableDeclarator (Identifier ''b'')
                      (MemberExpression (Identifier ''a'') (Identifier ''x''))],
                 ReturnStatement
                   (ObjectExpression
                      [Property (Identifier ''b'') (Identifier ''b'') None])])])]
   \<and> convert sample_identifier
       [ExpressionStatement (CallExpression (Identifier ''define'')
          [ArrayExpression [Literal (StrLit ''m'')],
           FunctionExpression [Identifier ''a'']
             (BlockStatement
                [ExpressionStatement (Literal (StrLit ''use strict'')),
                 VariableDeclaration ''const''
                   [VariableDeclarator (Identifier ''b'')
                      (MemberExpression (Identifier ''a'') (Identifier ''x''))],
                 ReturnStatement
                   (ObjectExpression
                      [Property (Identifier ''b'') (Identifier ''b'') None])])])]
     = Inr [ExpressionStatement (CallExpression (Identifier ''define'')
          [ArrayExpression [Literal (StrLit ''m'')],
           FunctionExpression [Identifier ''a'']
             (BlockStatement
                [ExpressionStatement (Literal (StrLit ''use strict'')),
                 VariableDeclaration ''const''
                   [VariableDeclarator (Identifier ''b'')
                      (MemberExpression (Identifier ''a'') (Identifier ''x''))],
                 ReturnStatement
                   (ObjectExpression
                      [Property (Identifier ''b'') (Identifier ''b'') None])])])]"
proof -
  let ?t = "[ImportDeclaration [ImportSpecifier ''x'' ''x''] ''m'',
      ExportNamedDeclaration
        (VariableDeclaration ''const''
           [VariableDeclarator (Identifier ''b'') (Identifier ''x'')]) [] None]"
  let ?u = "[ExpressionStatement (CallExpression (Identifier ''define'')
          [ArrayExpression [Literal (StrLit ''m'')],
           FunctionExpression [Identifier ''a'']
             (BlockStatement
                [ExpressionStatement (Literal (StrLit ''use strict'')),
                 VariableDeclaration ''const''
                   [VariableDeclarator (Identifier ''b'')
                      (MemberExpression (Identifier ''a'') (Identifier ''x''))],
                 ReturnStatement
                   (ObjectExpression
                      [Property (Identifier ''b'') (Identifier ''b'') None])])])]"
  have h1: "named_exports_at_top ?t"
    by (simp add: named_exports_at_top_def has_def nodes_of.simps)
  have h2: "\<not> has isExportDefaultDeclaration ?t" by (simp add: has_def nodes_of.simps)
  then have h2': "\<not> (has isExportDefaultDeclaration ?t \<and> has isExportNamedDeclaration ?t)"
    by blast
  have h3: "convert sample_identifier ?t = Inr ?u"
    by (simp add: run)
  from convert_idempotent [OF h1 h2' h3]
  have a: "convert sample_identifier ?u = Inr ?u"
    by blast
  from h1 h2 h3 a show ?thesis by blast
qed

text \<open>
  Why the amended claim asks for the named exports to be top-level statements: a
  hand-built tree with an ExportNamedDeclaration in the place of a specifier's local
  name keeps that node as a key of the returned object.
\<close>

lemma nested_named_export_survives:
  "convert sample_identifier
     [ExportNamedDeclaration Null
        [ExportSpecifier (ExportNamedDeclaration Null [] None) (Identifier ''a'')] None]
     = Inr [ExpressionStatement (CallExpression (Identifier ''define'')
          [FunctionExpression []
             (BlockStatement
                [ExpressionStatement (Literal (StrLit ''use strict'')),
                 ReturnStatement
                   (ObjectExpression
                      [Property (ExportNamedDeclaration Null [] None)
                         (ExportNamedDeclaration Null [] None) (Some True)])])])]
   \<and> has isExportNamedDeclaration
       [ExpressionStatement (CallExpression (Identifier ''define'')
          [FunctionExpression []
             (BlockStatement
                [ExpressionStatement (Literal (StrLit ''use strict'')),
                 ReturnStatement
                   (ObjectExpression
                      [Property (ExportNamedDeclaration Null [] None)
                         (ExportNamedDeclaration Null [] None) (Some True)])])])]"
  by (simp add: run)


end
